theory Spec2Isabelle
  imports Main
begin

unbundle bit_operations_syntax

section \<open>Shared data model\<close>

text \<open>
  Error numbers of the kernel headers, as the positive constants the sources negate.
\<close>

definition EAGAIN :: int where "EAGAIN = 11"
definition ENOMEM :: int where "ENOMEM = 12"
definition EBUSY :: int where "EBUSY = 16"
definition EINVAL :: int where "EINVAL = 22"
definition ENOTSUPP :: int where "ENOTSUPP = 524"

text \<open>
  A folio, as far as the two engines and their admissibility predicates read it:
  the kernel address of its first page (\<open>page_address(&folio->page)\<close>), its number of
  pages, and the two flags \<open>can_migrate_dma\<close> tests.
\<close>

record folio =
  page_address :: nat
  folio_nr_pages :: nat
  folio_test_hugetlb :: bool
  folio_has_private :: bool

section \<open>The registry (migrate_offc)\<close>

text \<open>
  Function pointers are modelled by tags: \<open>struct migrator\<close> stores a copy function and an
  admissibility predicate, and the three functions of each kind that the sources put
  there are enumerated.
\<close>

datatype copy_fn = Fn_folios_mc_copy | Fn_copy_page_lists_mt | Fn_folios_copy_dma

datatype admit_fn = Fn_can_offc_migrate | Fn_can_migrate_mt | Fn_can_migrate_dma

text \<open>
  \<open>struct migrator\<close> of \<open>include/linux/migrate_offc.h\<close>, without the \<open>srcu_head\<close>
  linkage. The name is the content of the array \<open>name\<close>, up to its first zero byte. The
  two function pointers and the owner are \<open>None\<close> for \<open>NULL\<close>; the owner is the owning
  module's name.
\<close>

record migrator =
  name :: string
  migrate_offc :: "copy_fn option"
  can_migrate_offc :: "admit_fn option"
  owner :: "string option"

text \<open>The three descriptors the sources define.\<close>

definition kernel_migrator :: migrator where
  "kernel_migrator =
     \<lparr>name = ''kernel'', migrate_offc = Some Fn_folios_mc_copy,
      can_migrate_offc = Some Fn_can_offc_migrate, owner = None\<rparr>"

definition cpu_migrator :: migrator where
  "cpu_migrator =
     \<lparr>name = ''CPU_MT_COPY'', migrate_offc = Some Fn_copy_page_lists_mt,
      can_migrate_offc = Some Fn_can_migrate_mt, owner = Some ''cpu_mt''\<rparr>"

definition dmigrator :: migrator where
  "dmigrator =
     \<lparr>name = ''DCBM'', migrate_offc = Some Fn_folios_copy_dma,
      can_migrate_offc = Some Fn_can_migrate_dma, owner = Some ''dcbm''\<rparr>"

text \<open>
  The global state of the registry: the slot \<open>struct migrator migrator\<close>, which holds a
  descriptor by value, and the flag \<open>atomic_t dispatch_to_offc\<close>.
\<close>

record registry =
  migrator :: migrator
  dispatch_to_offc :: int

text \<open>The static initialisers: the slot holds the built-in descriptor, the flag is 0.\<close>

definition registry_init :: registry where
  "registry_init = \<lparr>migrator = kernel_migrator, dispatch_to_offc = 0\<rparr>"

text \<open>
  Modelled from the spec: the slot as uninstall leaves it. The spec says that uninstall
  "clears the active descriptor" and that the name query then finds "an absent/empty
  result"; the slot of the sources holds a descriptor by value, so the cleared slot is
  the descriptor with every field zero: an empty name and \<open>NULL\<close> pointers.
\<close>

definition cleared_migrator :: migrator where
  "cleared_migrator =
     \<lparr>name = [], migrate_offc = None, can_migrate_offc = None, owner = None\<rparr>"

text \<open>
  Modelled from the spec: \<open>offc_update_migrator\<close> is declared in \<open>migrate_offc.h\<close> and
  called by \<open>start_offloading\<close> and \<open>stop_offloading\<close>, but its body is not among the
  sources. What it does is taken from the spec's contract of the registry:

  \<^item> uninstall (the \<open>NULL\<close> argument) "clears the active descriptor";

  \<^item> install "atomically publishes descriptor as active", but "attempting to install
    while another is active" is "a no-op" with "no state change": "replace is permitted
    only through an explicit uninstall first".

  The spec's registry state keeps the dispatch flag true while a descriptor is
  installed and uninstall clears it, so another backend is active exactly when the
  flag is set. Locking, the logged contention and the deferred reclamation are not
  modelled.
\<close>

definition offc_update_migrator :: "migrator option \<Rightarrow> registry \<Rightarrow> registry" where
  "offc_update_migrator mig st =
     (case mig of
        None \<Rightarrow> st\<lparr>migrator := cleared_migrator\<rparr>
      | Some m \<Rightarrow> if dispatch_to_offc st \<noteq> 0 then st else st\<lparr>migrator := m\<rparr>)"

text \<open>
  \<open>atomic_try_cmpxchg(&v, &old, new)\<close>: the value becomes \<open>new\<close> if it was \<open>old\<close> and
  stays what it was otherwise. Neither caller reads the boolean result.
\<close>

definition atomic_try_cmpxchg :: "int \<Rightarrow> int \<Rightarrow> int \<Rightarrow> int" where
  "atomic_try_cmpxchg v old new = (if v = old then new else v)"

definition start_offloading :: "migrator \<Rightarrow> registry \<Rightarrow> registry" where
  "start_offloading m st =
     (let offloading = 0;
          st1 = offc_update_migrator (Some m) st
      in st1\<lparr>dispatch_to_offc := atomic_try_cmpxchg (dispatch_to_offc st1) offloading 1\<rparr>)"

definition stop_offloading :: "registry \<Rightarrow> registry" where
  "stop_offloading st =
     (let offloading = 1;
          st1 = offc_update_migrator None st
      in st1\<lparr>dispatch_to_offc := atomic_try_cmpxchg (dispatch_to_offc st1) offloading 0\<rparr>)"

text \<open>
  \<open>get_active_migrator_name\<close> returns a pointer to the name array of the slot. The
  result type is an option so that a \<open>NULL\<close> result could be told apart; the function
  has no path that returns one, and the only absent result it can give is the empty
  name.
\<close>

definition get_active_migrator_name :: "registry \<Rightarrow> string option" where
  "get_active_migrator_name st = Some (name (migrator st))"

section \<open>Admissibility predicates\<close>

definition can_offc_migrate :: "folio \<Rightarrow> folio \<Rightarrow> bool" where
  "can_offc_migrate dst src = True"

definition can_migrate_mt :: "folio \<Rightarrow> folio \<Rightarrow> bool" where
  "can_migrate_mt dst src = True"

definition can_migrate_dma :: "folio \<Rightarrow> folio \<Rightarrow> bool" where
  "can_migrate_dma dst src =
     (if folio_test_hugetlb src \<or> folio_test_hugetlb dst \<or>
         folio_has_private src \<or> folio_has_private dst \<or>
         folio_nr_pages src \<noteq> folio_nr_pages dst
      then False else True)"

text \<open>
  Calling the predicate a descriptor points to; a call through a \<open>NULL\<close> pointer gives
  no answer.
\<close>

fun call_can_migrate :: "admit_fn option \<Rightarrow> folio \<Rightarrow> folio \<Rightarrow> bool option" where
  "call_can_migrate None dst src = None"
| "call_can_migrate (Some Fn_can_offc_migrate) dst src = Some (can_offc_migrate dst src)"
| "call_can_migrate (Some Fn_can_migrate_mt) dst src = Some (can_migrate_mt dst src)"
| "call_can_migrate (Some Fn_can_migrate_dma) dst src = Some (can_migrate_dma dst src)"

section \<open>Tuning knobs\<close>

text \<open>
  \<open>kstrtouint\<close> and \<open>kstrtoint\<close> are library functions outside the sources; the setters
  take them as a parameter that maps the written text to a status code and the parsed
  value (meaningful when the code is 0). A setter's state is the knob it guards; it
  returns its \<open>ssize_t\<close> result together with the knob's new value.
\<close>

definition MAX_NUM_COPY_THREADS :: nat where "MAX_NUM_COPY_THREADS = 64"

definition MAX_DMA_CHANNELS :: int where "MAX_DMA_CHANNELS = 16"

definition mt_threads_set ::
  "(string \<Rightarrow> int \<times> nat) \<Rightarrow> nat \<Rightarrow> string \<Rightarrow> int \<Rightarrow> int \<times> nat" where
  "mt_threads_set kstrtouint limit_mt_num buf count =
     (let (ccode, threads) = kstrtouint buf
      in if ccode \<noteq> 0 then (ccode, limit_mt_num)
         else if threads > 0 \<and> threads \<le> MAX_NUM_COPY_THREADS then (count, threads)
         else (- EINVAL, limit_mt_num))"

text \<open>\<open>sizeof(action)\<close>, the size of an \<open>int\<close>, is what \<open>nr_dma_chan_set\<close> returns on success.\<close>

definition sizeof_int :: int where "sizeof_int = 4"

definition nr_dma_chan_set ::
  "(string \<Rightarrow> int \<times> int) \<Rightarrow> int \<Rightarrow> string \<Rightarrow> int \<Rightarrow> int \<times> int" where
  "nr_dma_chan_set kstrtoint nr_dma_chan buf count =
     (let (ccode, action) = kstrtoint buf
      in if ccode \<noteq> 0 then (ccode, nr_dma_chan)
         else if action < 1 then (- EINVAL, nr_dma_chan)
         else let action = (if action \<ge> MAX_DMA_CHANNELS then MAX_DMA_CHANNELS else action)
              in (sizeof_int, action))"

text \<open>
  A parser that reports the given status code and value whatever the text: the fixed
  behaviour of \<open>kstrtoint\<close> or \<open>kstrtouint\<close> on one input, for concrete runs.
\<close>

definition parses_as :: "int \<Rightarrow> 'a \<Rightarrow> string \<Rightarrow> int \<times> 'a" where
  "parses_as ccode v buf = (ccode, v)"

section \<open>Enable and disable\<close>

text \<open>
  Each backend module has its own flag \<open>is_dispatching\<close> and its own sysfs store
  function; the two functions differ only in the descriptor they install. The state is
  the module's flag together with the registry; the result is the \<open>ssize_t\<close> returned and
  the new state.
\<close>

definition mt_offloading_set ::
  "(string \<Rightarrow> int \<times> int) \<Rightarrow> int \<times> registry \<Rightarrow> string \<Rightarrow> int \<times> (int \<times> registry)" where
  "mt_offloading_set kstrtoint st buf =
     (let (is_dispatching, reg) = st;
          (ccode, action) = kstrtoint buf
      in if ccode \<noteq> 0 then (ccode, st)
         else if action = 0
         then (if is_dispatching = 1 then (sizeof_int, (0, stop_offloading reg))
               else (sizeof_int, st))
         else if action = 1
         then (if is_dispatching = 0 then (sizeof_int, (1, start_offloading cpu_migrator reg))
               else (sizeof_int, st))
         else (sizeof_int, st))"

definition offloading_set ::
  "(string \<Rightarrow> int \<times> int) \<Rightarrow> int \<times> registry \<Rightarrow> string \<Rightarrow> int \<times> (int \<times> registry)" where
  "offloading_set kstrtoint st buf =
     (let (is_dispatching, reg) = st;
          (ccode, action) = kstrtoint buf
      in if ccode \<noteq> 0 then (ccode, st)
         else if action = 0
         then (if is_dispatching = 1 then (sizeof_int, (0, stop_offloading reg))
               else (sizeof_int, st))
         else if action = 1
         then (if is_dispatching = 0 then (sizeof_int, (1, start_offloading dmigrator reg))
               else (sizeof_int, st))
         else (sizeof_int, st))"

section \<open>The CPU multithreaded engine (mtcopy)\<close>

subsection \<open>Integer conversions of C\<close>

text \<open>
  \<open>nr_items\<close> is an \<open>int\<close> and \<open>total_mt_num\<close> an \<open>unsigned int\<close>: where the two meet
  in a comparison, a division or a remainder, C converts the \<open>int\<close> to \<open>unsigned int\<close>
  (\<open>u32\<close>), and storing the unsigned result in an \<open>int\<close> converts it back (\<open>s32\<close>).
  \<open>num_items\<close> is an \<open>unsigned long\<close> that is assigned an \<open>int\<close> (\<open>ulong\<close>).
\<close>

definition u32 :: "int \<Rightarrow> nat" where
  "u32 x = nat (x mod 2 ^ 32)"

definition s32 :: "nat \<Rightarrow> int" where
  "s32 u = (if u mod 2 ^ 32 < 2 ^ 31 then int (u mod 2 ^ 32) else int (u mod 2 ^ 32) - 2 ^ 32)"

definition ulong :: "int \<Rightarrow> nat" where
  "ulong x = nat (x mod 2 ^ 64)"

subsection \<open>Work descriptors, environment and effects\<close>

record copy_item =
  item_to :: nat
  item_from :: nat
  chunk_size :: nat

record copy_page_info =
  ret :: int
  num_items :: nat
  item_list :: "copy_item list"

text \<open>
  What the function gets from outside itself: the configuration option it tests, the
  page size, whether the \<open>GFP_NOWAIT\<close> allocation of worker \<open>cpu\<close>'s descriptor
  succeeds, and what \<open>copy_mc_to_kernel\<close> returns for a destination, a source and a
  length (the number of bytes it could not copy, 0 on success).
\<close>

record mt_env =
  CONFIG_HIGHMEM :: bool
  PAGE_SIZE :: nat
  kzalloc_ok :: "nat \<Rightarrow> bool"
  copy_mc_to_kernel :: "nat \<Rightarrow> nat \<Rightarrow> nat \<Rightarrow> nat"

text \<open>
  The effects, in program order: a successful allocation and a release of worker
  \<open>cpu\<close>'s descriptor, the queueing of worker \<open>cpu\<close>, one call of the copy routine with
  its result, and the warning after the distribution loop.
\<close>

datatype mt_event =
  Kzalloc nat | Kfree nat | Queue_work nat | Copy_mc copy_item nat | Pr_warn

text \<open>
  \<open>work_items\<close> is the local array of 64 pointers. It starts zeroed and is filled in
  index order, so its non-\<open>NULL\<close> entries are always a prefix; the model keeps that
  prefix as a list, and an index at or beyond its length is a \<open>NULL\<close> entry (or, at 64,
  lies outside the array).
\<close>

record mt_state =
  work_items :: "copy_page_info list"
  trace :: "mt_event list"

datatype fault = Divide_error | Bad_access

subsection \<open>The worker\<close>

definition copy_page_routine :: "mt_env \<Rightarrow> nat \<Rightarrow> nat \<Rightarrow> nat \<Rightarrow> nat" where
  "copy_page_routine env vto vfrom sz = copy_mc_to_kernel env vto vfrom sz"

text \<open>The loop of the worker: \<open>ret |= !!copy_page_routine(...)\<close> for each item.\<close>

fun copy_items :: "mt_env \<Rightarrow> copy_item list \<Rightarrow> int \<Rightarrow> int" where
  "copy_items env [] r = r"
| "copy_items env (it # its) r =
     copy_items env its
       (r OR (if copy_page_routine env (item_to it) (item_from it) (chunk_size it) \<noteq> 0
              then 1 else 0))"

definition copy_page_work_queue_thread :: "mt_env \<Rightarrow> copy_page_info \<Rightarrow> copy_page_info" where
  "copy_page_work_queue_thread env my_work =
     my_work\<lparr>ret := copy_items env (take (num_items my_work) (item_list my_work)) 0\<rparr>"

definition copy_events :: "mt_env \<Rightarrow> copy_page_info \<Rightarrow> mt_event list" where
  "copy_events env my_work =
     map (\<lambda>it. Copy_mc it (copy_page_routine env (item_to it) (item_from it) (chunk_size it)))
       (take (num_items my_work) (item_list my_work))"

text \<open>
  \<open>queue_work\<close> hands worker \<open>cpu\<close>'s descriptor to the workqueue. The worker runs some
  time before \<open>flush_work\<close> returns; it touches only its own descriptor, which is
  complete when it is queued, so the model runs it at once.
\<close>

definition queue_work :: "mt_env \<Rightarrow> nat \<Rightarrow> mt_state \<Rightarrow> mt_state" where
  "queue_work env cpu st =
     st\<lparr>work_items := (work_items st)[cpu := copy_page_work_queue_thread env (work_items st ! cpu)],
        trace := trace st @ Queue_work cpu # copy_events env (work_items st ! cpu)\<rparr>"

subsection \<open>copy_page_lists_mt\<close>

text \<open>\<open>for (cpu = 0; cpu < total_mt_num; ++cpu) body\<close>.\<close>

definition for_each_cpu :: "nat \<Rightarrow> (nat \<Rightarrow> 's \<Rightarrow> 's) \<Rightarrow> 's \<Rightarrow> 's" where
  "for_each_cpu total_mt_num body st = fold body [0..<total_mt_num] st"

text \<open>
  The test \<open>nr_items < total_mt_num\<close>, made at lines 170 and 188: "each threads get part
  of each page" when it holds, whole folios are handed out otherwise.
\<close>

definition part_of_each_page :: "int \<Rightarrow> nat \<Rightarrow> bool" where
  "part_of_each_page nr_items total_mt_num = (u32 nr_items < total_mt_num)"

definition max_items_per_thread :: "int \<Rightarrow> nat \<Rightarrow> int" where
  "max_items_per_thread nr_items total_mt_num =
     (if part_of_each_page nr_items total_mt_num then nr_items
      else s32 (u32 nr_items div total_mt_num +
                (if u32 nr_items mod total_mt_num \<noteq> 0 then 1 else 0)))"

text \<open>
  A descriptor as \<open>kzalloc\<close> returns it: zeroed, with room for \<open>max_items_per_thread\<close>
  items (none when that count is negative).
\<close>

definition zeroed_work :: "int \<Rightarrow> copy_page_info" where
  "zeroed_work max_items =
     \<lparr>ret = 0, num_items = 0,
      item_list = replicate (nat max_items) \<lparr>item_to = 0, item_from = 0, chunk_size = 0\<rparr>\<rparr>"

text \<open>The allocation loop; \<open>False\<close> is the jump to \<open>free_work_items\<close> with \<open>-ENOMEM\<close>.\<close>

fun alloc_work_items :: "mt_env \<Rightarrow> int \<Rightarrow> nat list \<Rightarrow> mt_state \<Rightarrow> bool \<times> mt_state" where
  "alloc_work_items env max_items [] st = (True, st)"
| "alloc_work_items env max_items (cpu # cpus) st =
     (if kzalloc_ok env cpu
      then alloc_work_items env max_items cpus
             (st\<lparr>work_items := work_items st @ [zeroed_work max_items],
                 trace := trace st @ [Kzalloc cpu]\<rparr>)
      else (False, st))"

text \<open>The loop at \<open>free_work_items\<close>: \<open>kfree\<close> of a \<open>NULL\<close> entry does nothing.\<close>

definition free_work_items :: "nat \<Rightarrow> mt_state \<Rightarrow> mt_state" where
  "free_work_items total_mt_num st =
     for_each_cpu total_mt_num
       (\<lambda>cpu s. if cpu < length (work_items s) then s\<lparr>trace := trace s @ [Kfree cpu]\<rparr> else s) st"

definition set_num_items :: "nat \<Rightarrow> nat \<Rightarrow> mt_state \<Rightarrow> mt_state" where
  "set_num_items cpu n st =
     st\<lparr>work_items := (work_items st)[cpu := (work_items st ! cpu)\<lparr>num_items := n\<rparr>]\<rparr>"

definition set_item :: "nat \<Rightarrow> nat \<Rightarrow> copy_item \<Rightarrow> mt_state \<Rightarrow> mt_state" where
  "set_item cpu idx it st =
     st\<lparr>work_items := (work_items st)[cpu := (work_items st ! cpu)
          \<lparr>item_list := (item_list (work_items st ! cpu))[idx := it]\<rparr>]\<rparr>"

text \<open>
  The walk over \<open>src_folios\<close> of the first branch, \<open>dst\<close> stepping through \<open>dst_folios\<close>
  beside it. A destination list that ends before the source list leaves \<open>dst\<close> on the
  list head, which is no folio, and an \<open>item_idx\<close> at or beyond the allocated count
  writes past the descriptor: both are faults. The \<open>VM_WARN_ON\<close> checks of the two walks
  (a size that \<open>total_mt_num\<close> does not divide, folios of different sizes) warn in a
  debug kernel and change nothing that follows; they are left out.
\<close>

fun fill_chunks ::
  "mt_env \<Rightarrow> nat \<Rightarrow> int \<Rightarrow> folio list \<Rightarrow> folio list \<Rightarrow> nat \<Rightarrow> mt_state \<Rightarrow> fault + mt_state" where
  "fill_chunks env total_mt_num max_items dsts [] item_idx st = Inr st"
| "fill_chunks env total_mt_num max_items [] (src # srcs) item_idx st = Inl Bad_access"
| "fill_chunks env total_mt_num max_items (dst # dsts) (src # srcs) item_idx st =
     (let chunk = PAGE_SIZE env * folio_nr_pages src div total_mt_num;
          vfrom = page_address src;
          vto = page_address dst
      in if max_items \<le> int item_idx then Inl Bad_access
         else fill_chunks env total_mt_num max_items dsts srcs (item_idx + 1)
                (for_each_cpu total_mt_num
                   (\<lambda>cpu. set_item cpu item_idx
                      \<lparr>item_to = vto + chunk * cpu, item_from = vfrom + chunk * cpu,
                       chunk_size = chunk\<rparr>) st))"

text \<open>
  The walk of the second branch. \<open>work_items[cpu]\<close> with \<open>cpu\<close> at or beyond the
  allocated prefix is a \<open>NULL\<close> pointer. The result carries the final \<open>item_idx\<close>.
\<close>

fun fill_folios ::
  "mt_env \<Rightarrow> folio list \<Rightarrow> folio list \<Rightarrow> nat \<Rightarrow> nat \<Rightarrow> nat \<Rightarrow> mt_state
     \<Rightarrow> fault + nat \<times> mt_state" where
  "fill_folios env dsts [] cpu per_cpu_item_idx item_idx st = Inr (item_idx, st)"
| "fill_folios env [] (src # srcs) cpu per_cpu_item_idx item_idx st = Inl Bad_access"
| "fill_folios env (dst # dsts) (src # srcs) cpu per_cpu_item_idx item_idx st =
     (if length (work_items st) \<le> cpu then Inl Bad_access
      else if length (item_list (work_items st ! cpu)) \<le> per_cpu_item_idx then Inl Bad_access
      else
        let st1 = set_item cpu per_cpu_item_idx
                    \<lparr>item_to = page_address dst, item_from = page_address src,
                     chunk_size = PAGE_SIZE env * folio_nr_pages src\<rparr> st
        in if per_cpu_item_idx + 1 = num_items (work_items st1 ! cpu)
           then fill_folios env dsts srcs (cpu + 1) 0 (item_idx + 1) (queue_work env cpu st1)
           else fill_folios env dsts srcs cpu (per_cpu_item_idx + 1) (item_idx + 1) st1)"

text \<open>The first branch: every worker gets a chunk of every folio, then all are queued.\<close>

definition dispatch_chunks ::
  "mt_env \<Rightarrow> nat \<Rightarrow> int \<Rightarrow> folio list \<Rightarrow> folio list \<Rightarrow> mt_state \<Rightarrow> fault + mt_state" where
  "dispatch_chunks env total_mt_num max_items dst_folios src_folios st =
     (let st1 = for_each_cpu total_mt_num (\<lambda>cpu. set_num_items cpu (ulong max_items)) st
      in case fill_chunks env total_mt_num max_items dst_folios src_folios 0 st1 of
           Inl f \<Rightarrow> Inl f
         | Inr st2 \<Rightarrow> Inr (for_each_cpu total_mt_num (queue_work env) st2))"

text \<open>
  The second branch: worker \<open>cpu\<close> is to get \<open>num_xfer_per_thread\<close> folios and one more
  if \<open>cpu < nr_items % total_mt_num\<close>; each worker is queued when its list is full.
\<close>

definition dispatch_folios ::
  "mt_env \<Rightarrow> nat \<Rightarrow> int \<Rightarrow> folio list \<Rightarrow> folio list \<Rightarrow> mt_state \<Rightarrow> fault + mt_state" where
  "dispatch_folios env total_mt_num nr_items dst_folios src_folios st =
     (let num_xfer_per_thread = s32 (u32 nr_items div total_mt_num);
          st1 = for_each_cpu total_mt_num
                  (\<lambda>cpu. set_num_items cpu
                     (ulong (num_xfer_per_thread +
                        (if cpu < u32 nr_items mod total_mt_num then 1 else 0)))) st
      in case fill_folios env dst_folios src_folios 0 0 0 st1 of
           Inl f \<Rightarrow> Inl f
         | Inr (item_idx, st2) \<Rightarrow>
             Inr (if int item_idx \<noteq> nr_items then st2\<lparr>trace := trace st2 @ [Pr_warn]\<rparr>
                  else st2))"

text \<open>
  The loop that waits for every worker (\<open>flush_work\<close>) and reads its \<open>ret\<close>: "retry if
  any copy fails".
\<close>

definition wait_all :: "nat \<Rightarrow> mt_state \<Rightarrow> int \<Rightarrow> int" where
  "wait_all total_mt_num st err =
     for_each_cpu total_mt_num
       (\<lambda>i e. if ret (work_items st ! i) \<noteq> 0 then - EAGAIN else e) err"

text \<open>
  The whole function. \<open>limit_mt_num\<close> is the knob, read once at the start. With
  \<open>total_mt_num = 0\<close> the division at line 173 traps.
\<close>

definition copy_page_lists_mt ::
  "mt_env \<Rightarrow> nat \<Rightarrow> folio list \<Rightarrow> folio list \<Rightarrow> int \<Rightarrow> fault + int \<times> mt_state" where
  "copy_page_lists_mt env limit_mt_num dst_folios src_folios nr_items =
     (let st0 = \<lparr>work_items = [], trace = []\<rparr>;
          total_mt_num = (if limit_mt_num > MAX_NUM_COPY_THREADS then MAX_NUM_COPY_THREADS
                          else limit_mt_num)
      in if CONFIG_HIGHMEM env then Inr (- ENOTSUPP, st0)
         else if \<not> part_of_each_page nr_items total_mt_num \<and> total_mt_num = 0
         then Inl Divide_error
         else
           let max_items = max_items_per_thread nr_items total_mt_num
           in case alloc_work_items env max_items [0..<total_mt_num] st0 of
                (False, st1) \<Rightarrow> Inr (- ENOMEM, free_work_items total_mt_num st1)
              | (True, st1) \<Rightarrow>
                  (case (if part_of_each_page nr_items total_mt_num
                         then dispatch_chunks env total_mt_num max_items dst_folios src_folios st1
                         else dispatch_folios env total_mt_num nr_items dst_folios src_folios st1) of
                     Inl f \<Rightarrow> Inl f
                   | Inr st2 \<Rightarrow>
                       Inr (wait_all total_mt_num st2 0, free_work_items total_mt_num st2)))"

text \<open>Concrete environments and folios for runs of the function.\<close>

definition env_ok :: mt_env where
  "env_ok = \<lparr>CONFIG_HIGHMEM = False, PAGE_SIZE = 4096, kzalloc_ok = (\<lambda>cpu. True),
            copy_mc_to_kernel = (\<lambda>vto vfrom sz. 0)\<rparr>"

definition env_no_memory_at :: "nat \<Rightarrow> mt_env" where
  "env_no_memory_at k = env_ok\<lparr>kzalloc_ok := (\<lambda>cpu. cpu \<noteq> k)\<rparr>"

definition env_copy_fails_from :: "nat \<Rightarrow> mt_env" where
  "env_copy_fails_from a = env_ok\<lparr>copy_mc_to_kernel := (\<lambda>vto vfrom sz. if vfrom = a then sz else 0)\<rparr>"

definition small_folio :: "nat \<Rightarrow> folio" where
  "small_folio a =
     \<lparr>page_address = a, folio_nr_pages = 1, folio_test_hugetlb = False,
      folio_has_private = False\<rparr>"

section \<open>The DMA offload engine (dcbm)\<close>

subsection \<open>Channel work records, environment and effects\<close>

text \<open>
  \<open>struct dma_channel_work\<close>: the channel (its index in \<open>channels[]\<close>), the completion
  \<open>done\<close> (here \<open>done_c\<close>: the number of \<open>complete\<close> calls not yet consumed by a waiter)
  and the count of transfers in flight. The spinlock is not modelled.
\<close>

record dma_channel_work =
  chan :: nat
  done_c :: nat
  active_transfers :: int

text \<open>
  What the hardware and the DMA mapping layer answer for one pair: whether mapping the
  source fails, whether mapping the destination fails, whether
  \<open>device_prep_dma_memcpy\<close> returns no descriptor, whether \<open>tx_submit\<close> returns an error
  cookie.
\<close>

record dma_response =
  src_mapping_error :: bool
  dst_mapping_error :: bool
  prep_fails :: bool
  submit_error :: bool

text \<open>
  What the function gets from outside itself: whether the two \<open>kmalloc_array\<close> calls
  succeed, how many times \<open>dma_request_channel\<close> hands out a channel before it returns
  \<open>NULL\<close>, and the answers for a source and a destination folio.
\<close>

record dma_env =
  kmalloc_channels_ok :: bool
  channels_available :: nat
  kmalloc_works_ok :: bool
  response :: "folio \<Rightarrow> folio \<Rightarrow> dma_response"

text \<open>
  The effects, in program order: page mappings and their release, a descriptor
  submitted on a channel for a source and a destination, a synchronous copy of a
  destination from a source, channels requested, issued and released, and the messages
  of \<open>pr_err\<close> (with the number they print, where they print one).
\<close>

datatype dma_message =
  No_memory_for_channels
  | Could_only_allocate nat
  | No_dma_channels
  | No_memory_for_work_structures
  | Src_mapping_error
  | Dst_mapping_error
  | Prep_dma_memcpy_error
  | Dma_submit_error
  | Processed_fallback int

datatype dma_event =
  Dma_map_page folio
  | Dma_unmap_page folio
  | Tx_submit nat folio folio
  | Folio_copy folio folio
  | Request_channel nat
  | Issue_pending nat
  | Release_channel nat
  | Pr_err dma_message

record dma_state =
  chan_works :: "dma_channel_work list"
  failed :: int
  dma_trace :: "dma_event list"

subsection \<open>Completion\<close>

definition folios_dma_completion_callback :: "dma_channel_work \<Rightarrow> dma_channel_work" where
  "folios_dma_completion_callback chan_work =
     (let a = active_transfers chan_work - 1
      in chan_work\<lparr>active_transfers := a,
                    done_c := (if a = 0 then done_c chan_work + 1 else done_c chan_work)\<rparr>)"

text \<open>
  The hardware finishes every transfer in flight on a channel and calls the callback
  once for each. Only a descriptor that was submitted has the callback attached, so a
  channel with nothing in flight gets no call. The model lets the transfers finish after
  \<open>dma_async_issue_pending\<close>; whether \<open>done\<close> is completed at all does not depend on
  when they finish.
\<close>

definition hardware_completes :: "dma_channel_work \<Rightarrow> dma_channel_work" where
  "hardware_completes chan_work =
     (folios_dma_completion_callback ^^ nat (active_transfers chan_work)) chan_work"

text \<open>
  \<open>wait_for_completion\<close> returns once \<open>done\<close> has been completed and consumes one
  completion; \<open>None\<close> is the wait that never ends, for a completion nothing will
  complete.
\<close>

definition wait_for_completion :: "dma_channel_work \<Rightarrow> dma_channel_work option" where
  "wait_for_completion chan_work =
     (if done_c chan_work > 0 then Some (chan_work\<lparr>done_c := done_c chan_work - 1\<rparr>) else None)"

subsection \<open>process_folio_dma_transfer\<close>

text \<open>The result is the return value, the channel work record and the effects.\<close>

definition process_folio_dma_transfer ::
  "dma_env \<Rightarrow> dma_channel_work \<Rightarrow> folio \<Rightarrow> folio
     \<Rightarrow> int \<times> dma_channel_work \<times> dma_event list" where
  "process_folio_dma_transfer env chan_work src dst =
     (let r = response env src dst
      in if src_mapping_error r
         then (- ENOMEM, chan_work, [Pr_err Src_mapping_error])
         else if dst_mapping_error r
         then (- ENOMEM, chan_work,
               [Dma_map_page src, Pr_err Dst_mapping_error, Dma_unmap_page src])
         else if prep_fails r
         then (- EBUSY, chan_work,
               [Dma_map_page src, Dma_map_page dst, Pr_err Prep_dma_memcpy_error,
                Dma_unmap_page dst, Dma_unmap_page src])
         else
           let cw1 = chan_work\<lparr>active_transfers := active_transfers chan_work + 1\<rparr>
           in if submit_error r
              then (- EINVAL, cw1\<lparr>active_transfers := active_transfers cw1 - 1\<rparr>,
                    [Dma_map_page src, Dma_map_page dst, Pr_err Dma_submit_error,
                     Dma_unmap_page dst, Dma_unmap_page src])
              else (0, cw1,
                    [Dma_map_page src, Dma_map_page dst, Tx_submit (chan chan_work) src dst]))"

subsection \<open>folios_copy_dma_parallel\<close>

text \<open>
  Modelled from the spec: \<open>folios_copy\<close> is called on the three fallback paths but is
  not among the sources. The spec calls it "the ordinary (non-accelerated,
  single-unit-at-a-time) copy path": each destination is copied from its source, in
  order.
\<close>

definition folios_copy :: "folio list \<Rightarrow> folio list \<Rightarrow> int \<Rightarrow> dma_event list" where
  "folios_copy dst_list src_list folios_cnt =
     map (\<lambda>(dst, src). Folio_copy dst src) (zip dst_list src_list)"

text \<open>
  STEP 1, the walk over \<open>src_list\<close> with \<open>dst\<close> stepping through \<open>dst_list\<close> beside it. A
  destination list that ends before the source list leaves \<open>dst\<close> on the list head,
  which is no folio: a fault.
\<close>

fun submit_folios ::
  "dma_env \<Rightarrow> nat \<Rightarrow> folio list \<Rightarrow> folio list \<Rightarrow> nat \<Rightarrow> dma_state \<Rightarrow> fault + dma_state" where
  "submit_folios env actual_channels dsts [] channel_idx st = Inr st"
| "submit_folios env actual_channels [] (src # srcs) channel_idx st = Inl Bad_access"
| "submit_folios env actual_channels (dst # dsts) (src # srcs) channel_idx st =
     (case process_folio_dma_transfer env (chan_works st ! channel_idx) src dst of
        (rc, cw, evs) \<Rightarrow>
          let st1 = st\<lparr>chan_works := (chan_works st)[channel_idx := cw],
                       dma_trace := dma_trace st @ evs\<rparr>;
              st2 = (if rc \<noteq> 0
                     then st1\<lparr>dma_trace := dma_trace st1 @ [Folio_copy dst src],
                              failed := failed st1 + 1\<rparr>
                     else st1)
          in submit_folios env actual_channels dsts srcs
               ((channel_idx + 1) mod actual_channels) st2)"

text \<open>STEP 3: the waits, channel after channel; \<open>None\<close> when one of them never ends.\<close>

fun wait_channels :: "dma_channel_work list \<Rightarrow> dma_channel_work list option" where
  "wait_channels [] = Some []"
| "wait_channels (cw # cws) =
     (case wait_for_completion cw of
        None \<Rightarrow> None
      | Some cw' \<Rightarrow> (case wait_channels cws of None \<Rightarrow> None | Some cws' \<Rightarrow> Some (cw' # cws')))"

text \<open>
  The whole function. The result is a fault, or the return value (\<open>None\<close> when the call
  never returns) with the state reached. \<open>kmalloc_array\<close> of a negative count, taken as
  a \<open>size_t\<close>, overflows and returns \<open>NULL\<close>; of count 0 it returns a pointer that is
  not \<open>NULL\<close>.
\<close>

definition folios_copy_dma_parallel ::
  "dma_env \<Rightarrow> folio list \<Rightarrow> folio list \<Rightarrow> int \<Rightarrow> int \<Rightarrow> fault + int option \<times> dma_state" where
  "folios_copy_dma_parallel env dst_list src_list folios_cnt_total thread_count0 =
     (let st0 = \<lparr>chan_works = [], failed = 0, dma_trace = []\<rparr>;
          thread_count = min thread_count0 folios_cnt_total
      in if thread_count < 0 \<or> \<not> kmalloc_channels_ok env
         then Inr (Some 0,
                   st0\<lparr>dma_trace := Pr_err No_memory_for_channels #
                                      folios_copy dst_list src_list folios_cnt_total\<rparr>)
         else
           let actual_channels = min (nat thread_count) (channels_available env);
               requested = map Request_channel [0..<actual_channels] @
                           (if actual_channels < nat thread_count
                            then [Pr_err (Could_only_allocate actual_channels)] else [])
           in if actual_channels = 0
              then Inr (Some 0,
                        st0\<lparr>dma_trace := requested @
                               Pr_err No_dma_channels #
                               folios_copy dst_list src_list folios_cnt_total\<rparr>)
              else if \<not> kmalloc_works_ok env
              then Inr (Some 0,
                        st0\<lparr>dma_trace := requested @
                               Pr_err No_memory_for_work_structures #
                               map Release_channel [0..<actual_channels] @
                               folios_copy dst_list src_list folios_cnt_total\<rparr>)
              else
                let st1 = st0\<lparr>chan_works :=
                                map (\<lambda>i. \<lparr>chan = i, done_c = 0, active_transfers = 0\<rparr>)
                                  [0..<actual_channels],
                              dma_trace := requested\<rparr>
                in case submit_folios env actual_channels dst_list src_list 0 st1 of
                     Inl f \<Rightarrow> Inl f
                   | Inr st2 \<Rightarrow>
                       let st3 = st2\<lparr>chan_works := map hardware_completes (chan_works st2),
                                     dma_trace := dma_trace st2 @
                                                  map Issue_pending [0..<actual_channels]\<rparr>
                       in case wait_channels (chan_works st3) of
                            None \<Rightarrow> Inr (None, st3)
                          | Some cws \<Rightarrow>
                              Inr (Some 0,
                                   st3\<lparr>chan_works := cws,
                                       dma_trace := dma_trace st3 @
                                         (if failed st3 \<noteq> 0
                                          then [Pr_err (Processed_fallback (failed st3))] else []) @
                                         map Release_channel [0..<actual_channels]\<rparr>))"

definition folios_copy_dma ::
  "dma_env \<Rightarrow> int \<Rightarrow> folio list \<Rightarrow> folio list \<Rightarrow> int \<Rightarrow> fault + int option \<times> dma_state" where
  "folios_copy_dma env nr_dma_chan dst_list src_list folios_cnt =
     folios_copy_dma_parallel env dst_list src_list folios_cnt nr_dma_chan"

text \<open>Concrete environments for runs of the function.\<close>

definition no_error :: dma_response where
  "no_error = \<lparr>src_mapping_error = False, dst_mapping_error = False, prep_fails = False,
               submit_error = False\<rparr>"

definition dma_env_ok :: "nat \<Rightarrow> dma_env" where
  "dma_env_ok avail =
     \<lparr>kmalloc_channels_ok = True, channels_available = avail, kmalloc_works_ok = True,
      response = (\<lambda>src dst. no_error)\<rparr>"

definition dma_env_submit_fails_from :: "nat \<Rightarrow> nat \<Rightarrow> dma_env" where
  "dma_env_submit_fails_from avail a =
     (dma_env_ok avail)\<lparr>response :=
        (\<lambda>src dst. if page_address src = a then no_error\<lparr>submit_error := True\<rparr> else no_error)\<rparr>"

definition dma_env_src_map_fails_from :: "nat \<Rightarrow> nat \<Rightarrow> dma_env" where
  "dma_env_src_map_fails_from avail a =
     (dma_env_ok avail)\<lparr>response :=
        (\<lambda>src dst. if page_address src = a then no_error\<lparr>src_mapping_error := True\<rparr>
                    else no_error)\<rparr>"

text \<open>
  Reading a trace: which events are synchronous copies, which are submitted descriptors.
  A pair's asynchronous path fails when one of the four answers for it is an error.
\<close>

fun is_folio_copy :: "dma_event \<Rightarrow> bool" where
  "is_folio_copy (Folio_copy dst src) = True"
| "is_folio_copy e = False"

fun is_tx_submit :: "dma_event \<Rightarrow> bool" where
  "is_tx_submit (Tx_submit c src dst) = True"
| "is_tx_submit e = False"

definition async_path_fails :: "dma_env \<Rightarrow> folio \<Rightarrow> folio \<Rightarrow> bool" where
  "async_path_fails env src dst =
     (src_mapping_error (response env src dst) \<or> dst_mapping_error (response env src dst) \<or>
      prep_fails (response env src dst) \<or> submit_error (response env src dst))"

section \<open>Properties of the registry, the predicates and the knobs\<close>

subsection \<open>Tuning knobs\<close>

text \<open>
  The worker limit starts at 4 and is written by \<open>mt_threads_set\<close> alone, so it always
  lies between 1 and 64.
\<close>

lemma mt_threads_set_keeps_range:
  "0 < l \<and> l \<le> 64 \<Longrightarrow>
   0 < snd (mt_threads_set p l buf c) \<and> snd (mt_threads_set p l buf c) \<le> 64"
  by (auto simp: mt_threads_set_def MAX_NUM_COPY_THREADS_def split: prod.splits)

text \<open>
  C4, as the code has it. \<open>mt_threads_set\<close> stores a parsed value and returns \<open>count\<close>
  exactly when the value lies in [1, 64]; otherwise it returns the parser's code or
  \<open>-EINVAL\<close> and leaves the limit as it was. \<open>nr_dma_chan_set\<close> leaves the channel count
  as it was when the text does not parse or the value is below 1; every value from 1
  upwards is accepted, and what is stored is the smaller of the value and 16.
\<close>

theorem tuning_setters:
  "mt_threads_set p l buf c =
     (if fst (p buf) = 0 \<and> 1 \<le> snd (p buf) \<and> snd (p buf) \<le> 64 then (c, snd (p buf))
      else (if fst (p buf) \<noteq> 0 then fst (p buf) else - EINVAL, l))
   \<and> nr_dma_chan_set q n buf c =
     (if fst (q buf) \<noteq> 0 then (fst (q buf), n)
      else if snd (q buf) < 1 then (- EINVAL, n)
      else (sizeof_int, min (snd (q buf)) 16))"
  by (auto simp: mt_threads_set_def nr_dma_chan_set_def MAX_NUM_COPY_THREADS_def
      MAX_DMA_CHANNELS_def split: prod.splits)

theorem tuning_setters_witness:
  "mt_threads_set (parses_as 0 8) 4 ''8'' 2 = (2, 8)
   \<and> nr_dma_chan_set (parses_as 0 8) 2 ''8'' 2 = (4, 8)
   \<and> mt_threads_set (parses_as 0 65) 4 ''65'' 3 = (- 22, 4)
   \<and> nr_dma_chan_set (parses_as 0 65) 2 ''65'' 3 = (4, 16)
   \<and> mt_threads_set (parses_as 0 0) 4 ''0'' 2 = (- 22, 4)
   \<and> nr_dma_chan_set (parses_as 0 0) 2 ''0'' 2 = (- 22, 2)"
  using tuning_setters [of "parses_as 0 8" 4 "''8''" 2 "parses_as 0 8" 2]
    tuning_setters [of "parses_as 0 65" 4 "''65''" 3 "parses_as 0 65" 2]
    tuning_setters [of "parses_as 0 0" 4 "''0''" 2 "parses_as 0 0" 2]
  by (simp add: parses_as_def EINVAL_def sizeof_int_def)

text \<open>
  The claim's second half fails at 100: the text parses, the call returns
  \<open>sizeof(action)\<close> as for any accepted value, and the stored count changes from 1 to 16.
\<close>

theorem nr_dma_chan_set_accepts_100:
  "nr_dma_chan_set (parses_as 0 100) 1 ''100'' 4 = (sizeof_int, 16)"
  by (simp add: nr_dma_chan_set_def parses_as_def MAX_DMA_CHANNELS_def)

subsection \<open>Registry\<close>

lemma start_offloading_eq:
  "start_offloading m st =
     (if dispatch_to_offc st \<noteq> 0 then st else \<lparr>migrator = m, dispatch_to_offc = 1\<rparr>)"
  by (simp add: start_offloading_def offc_update_migrator_def atomic_try_cmpxchg_def Let_def)

lemma stop_offloading_eq:
  "stop_offloading st =
     \<lparr>migrator = cleared_migrator,
      dispatch_to_offc = (if dispatch_to_offc st = 1 then 0 else dispatch_to_offc st)\<rparr>"
  by (simp add: stop_offloading_def offc_update_migrator_def atomic_try_cmpxchg_def Let_def)

text \<open>
  C5. A backend is active when the dispatch flag is set. In such a state
  \<open>start_offloading\<close> with any descriptor changes nothing: the slot keeps the active
  descriptor and the flag keeps its value. With no backend active the call publishes
  the descriptor and sets the flag. So the descriptor of an active backend is replaced
  only by \<open>stop_offloading\<close> followed by \<open>start_offloading\<close>, which leaves the new
  descriptor in the slot and the flag set.
\<close>

theorem install_while_active_is_noop:
  "(dispatch_to_offc st \<noteq> 0 \<longrightarrow> start_offloading m st = st)
   \<and> (dispatch_to_offc st = 0 \<longrightarrow>
        start_offloading m st = \<lparr>migrator = m, dispatch_to_offc = 1\<rparr>)
   \<and> (dispatch_to_offc st = 1 \<longrightarrow>
        start_offloading m (stop_offloading st) = \<lparr>migrator = m, dispatch_to_offc = 1\<rparr>)"
  by (simp add: start_offloading_eq stop_offloading_eq)

theorem install_while_active_is_noop_witness:
  "start_offloading dmigrator registry_init = \<lparr>migrator = dmigrator, dispatch_to_offc = 1\<rparr>
   \<and> start_offloading cpu_migrator (start_offloading dmigrator registry_init) =
       \<lparr>migrator = dmigrator, dispatch_to_offc = 1\<rparr>
   \<and> start_offloading cpu_migrator (stop_offloading (start_offloading dmigrator registry_init)) =
       \<lparr>migrator = cpu_migrator, dispatch_to_offc = 1\<rparr>"
proof -
  let ?st = "\<lparr>migrator = dmigrator, dispatch_to_offc = 1\<rparr>"
  have h0: "dispatch_to_offc registry_init = 0"
    by (simp add: registry_init_def)
  have first: "start_offloading dmigrator registry_init = ?st"
    using install_while_active_is_noop [of registry_init dmigrator] h0 by simp
  have h1: "dispatch_to_offc ?st \<noteq> 0" and h2: "dispatch_to_offc ?st = 1"
    by simp_all
  show ?thesis
    using install_while_active_is_noop [of ?st cpu_migrator] h1 h2 first by simp
qed

text \<open>
  The control surface. Writing 1 to a module's \<open>offloading\<close> file a second time changes
  nothing, since the module's own \<open>is_dispatching\<close> is already 1. The flags of the two
  modules know nothing of each other: enabling the DMA backend and then the CPU backend
  sets both flags and leaves the DMA descriptor in the slot.
\<close>

lemma toggle_twice_is_noop:
  "snd (mt_offloading_set (parses_as 0 1) (1, reg) buf) = (1, reg)
   \<and> snd (offloading_set (parses_as 0 1) (1, reg) buf) = (1, reg)
   \<and> snd (mt_offloading_set (parses_as 0 0) (0, reg) buf) = (0, reg)
   \<and> snd (offloading_set (parses_as 0 0) (0, reg) buf) = (0, reg)"
  by (simp add: mt_offloading_set_def offloading_set_def parses_as_def)

lemma second_backend_toggle_keeps_first:
  "snd (offloading_set (parses_as 0 1) (0, registry_init) ''1'') =
     (1, \<lparr>migrator = dmigrator, dispatch_to_offc = 1\<rparr>)
   \<and> snd (mt_offloading_set (parses_as 0 1)
            (0, snd (snd (offloading_set (parses_as 0 1) (0, registry_init) ''1''))) ''1'') =
     (1, \<lparr>migrator = dmigrator, dispatch_to_offc = 1\<rparr>)"
  by (simp add: mt_offloading_set_def offloading_set_def parses_as_def start_offloading_eq
      registry_init_def)

text \<open>
  C6, with the initial state as the code has it. Before any install the query returns
  \<open>kernel\<close>, the name of the descriptor the slot is initialised with. After
  \<open>stop_offloading\<close> it returns the empty name of the cleared slot, the absent result of
  a function that returns the slot's name array. After \<open>start_offloading\<close> it returns
  the name of the installed descriptor: the given one when no backend was active, the
  active one otherwise.
\<close>

theorem active_name_by_state:
  "get_active_migrator_name registry_init = Some ''kernel''
   \<and> get_active_migrator_name (stop_offloading st) = Some []
   \<and> (dispatch_to_offc st = 0 \<longrightarrow>
        get_active_migrator_name (start_offloading m st) = Some (name m))
   \<and> (dispatch_to_offc st \<noteq> 0 \<longrightarrow>
        get_active_migrator_name (start_offloading m st) = get_active_migrator_name st)"
  by (simp add: get_active_migrator_name_def stop_offloading_eq start_offloading_eq
      registry_init_def kernel_migrator_def cleared_migrator_def)

theorem active_name_by_state_witness:
  "get_active_migrator_name (start_offloading dmigrator registry_init) = Some ''DCBM''
   \<and> get_active_migrator_name (stop_offloading (start_offloading dmigrator registry_init)) =
       Some []
   \<and> get_active_migrator_name
         (start_offloading cpu_migrator (start_offloading dmigrator registry_init)) =
       Some ''DCBM''"
proof -
  let ?st = "start_offloading dmigrator registry_init"
  have h0: "dispatch_to_offc registry_init = 0"
    by (simp add: registry_init_def)
  have h1: "dispatch_to_offc ?st \<noteq> 0"
    by (simp add: start_offloading_eq registry_init_def)
  show ?thesis
    using active_name_by_state [of registry_init dmigrator] active_name_by_state [of ?st cpu_migrator]
      h0 h1
    by (simp add: dmigrator_def)
qed

text \<open>
  The claim fails in the initial state, where nothing is installed and the flag is 0:
  the query returns \<open>kernel\<close>.
\<close>

theorem active_name_not_absent_initially:
  "dispatch_to_offc registry_init = 0
   \<and> migrator registry_init = kernel_migrator
   \<and> get_active_migrator_name registry_init = Some ''kernel''"
  by (simp add: get_active_migrator_name_def registry_init_def kernel_migrator_def)

subsection \<open>Admissibility\<close>

text \<open>
  C10. The predicate of the CPU backend, called directly or through the descriptor
  \<open>cpu_migrator\<close>, holds for every pair of folios; the DMA backend's predicate declines
  a pair whose source is a hugetlb folio.
\<close>

theorem can_migrate_mt_always:
  "can_migrate_mt dst src
   \<and> call_can_migrate (can_migrate_offc cpu_migrator) dst src = Some True
   \<and> call_can_migrate (can_migrate_offc dmigrator) dst (src\<lparr>folio_test_hugetlb := True\<rparr>)
       = Some False"
  by (simp add: can_migrate_mt_def cpu_migrator_def dmigrator_def can_migrate_dma_def)

section \<open>Properties of the CPU engine\<close>

subsection \<open>Allocation and release of the work descriptors\<close>

lemma alloc_work_items_eq:
  "alloc_work_items env m cpus st =
     (list_all (kzalloc_ok env) cpus,
      st\<lparr>work_items := work_items st @
             replicate (length (takeWhile (kzalloc_ok env) cpus)) (zeroed_work m),
         trace := trace st @ map Kzalloc (takeWhile (kzalloc_ok env) cpus)\<rparr>)"
  by (induction cpus arbitrary: st) (simp_all add: replicate_app_Cons_same)

lemma takeWhile_upt:
  "takeWhile P [0..<n] = [0..<length (takeWhile P [0..<n])]"
proof -
  have "length (takeWhile P [0..<n]) \<le> n"
    using length_takeWhile_le [of P "[0..<n]"] by simp
  then show ?thesis
    using takeWhile_eq_take [of P "[0..<n]"] by (simp add: min_def)
qed

lemma takeWhile_upt_first:
  assumes "k < n" "\<not> P k" "\<forall>c<k. P c"
  shows "takeWhile P [0..<n] = [0..<k]"
proof -
  have split: "[0..<n] = [0..<k] @ k # [Suc k..<n]"
    using assms(1) by (metis le0 less_imp_le_nat upt_add_eq_append upt_conv_Cons le_add_diff_inverse)
  have "takeWhile P ([0..<k] @ k # [Suc k..<n]) = [0..<k] @ takeWhile P (k # [Suc k..<n])"
    by (rule takeWhile_append2) (use assms(3) in simp)
  then show ?thesis
    unfolding split using assms(2) by simp
qed

lemma free_fold:
  "fold (\<lambda>cpu s. if cpu < length (work_items s) then s\<lparr>trace := trace s @ [Kfree cpu]\<rparr> else s) [0..<n] st =
   st\<lparr>trace := trace st @ map Kfree [0..<min n (length (work_items st))]\<rparr>"
proof (induction n)
  case 0
  show ?case by simp
next
  case (Suc n)
  show ?case
  proof (cases "n < length (work_items st)")
    case True
    then show ?thesis using Suc by (simp add: min_def)
  next
    case False
    then show ?thesis using Suc by (simp add: min_def)
  qed
qed

lemma free_work_items_eq:
  "free_work_items n st = st\<lparr>trace := trace st @ map Kfree [0..<min n (length (work_items st))]\<rparr>"
  by (simp add: free_work_items_def for_each_cpu_def free_fold)

lemma alloc_first_failure:
  assumes "k < n" "\<not> kzalloc_ok env k" "\<forall>c<k. kzalloc_ok env c"
  shows "alloc_work_items env m [0..<n] st =
     (False, st\<lparr>work_items := work_items st @ replicate k (zeroed_work m),
               trace := trace st @ map Kzalloc [0..<k]\<rparr>)"
proof -
  have "\<not> list_all (kzalloc_ok env) [0..<n]"
    using assms(1,2) by (auto simp: list_all_iff)
  then show ?thesis
    by (simp add: alloc_work_items_eq takeWhile_upt_first [OF assms])
qed

lemma alloc_all_ok:
  assumes "\<forall>c<n. kzalloc_ok env c"
  shows "alloc_work_items env m [0..<n] st =
     (True, st\<lparr>work_items := work_items st @ replicate n (zeroed_work m),
              trace := trace st @ map Kzalloc [0..<n]\<rparr>)"
proof -
  have la: "list_all (kzalloc_ok env) [0..<n]"
    using assms by (simp add: list_all_iff)
  have tw: "takeWhile (kzalloc_ok env) [0..<n] = [0..<n]"
    using assms by (simp add: takeWhile_eq_all_conv)
  show ?thesis
    unfolding alloc_work_items_eq tw using la by simp
qed

lemma replicate_numeral:
  "replicate (numeral k) x = x # replicate (pred_numeral k) x"
  by (simp add: numeral_eq_Suc)

text \<open>The equations that evaluate a run of the function on concrete lists.\<close>

lemmas mt_eval = copy_page_lists_mt_def Let_def MAX_NUM_COPY_THREADS_def part_of_each_page_def
  max_items_per_thread_def u32_def s32_def ulong_def zeroed_work_def dispatch_chunks_def
  dispatch_folios_def for_each_cpu_def set_num_items_def set_item_def queue_work_def
  copy_page_work_queue_thread_def copy_events_def copy_page_routine_def wait_all_def
  free_work_items_def small_folio_def EAGAIN_def ENOMEM_def upt_conv_Cons replicate_numeral

text \<open>The failed dispatch, told from the first worker whose allocation fails.\<close>

lemma alloc_failure_first:
  assumes "\<not> CONFIG_HIGHMEM env"
    and "k < min limit_mt_num 64" and "\<not> kzalloc_ok env k" and "\<forall>c<k. kzalloc_ok env c"
  shows "copy_page_lists_mt env limit_mt_num dst_folios src_folios nr_items =
     Inr (- ENOMEM,
          \<lparr>work_items =
             replicate k (zeroed_work (max_items_per_thread nr_items (min limit_mt_num 64))),
           trace = map Kzalloc [0..<k] @ map Kfree [0..<k]\<rparr>)"
proof -
  let ?T = "if limit_mt_num > MAX_NUM_COPY_THREADS then MAX_NUM_COPY_THREADS else limit_mt_num"
  have T: "?T = min limit_mt_num 64"
    by (simp add: MAX_NUM_COPY_THREADS_def min_def)
  have pos: "min limit_mt_num 64 \<noteq> 0"
    using assms(2) by simp
  have k: "min (min limit_mt_num 64) k = k"
    using assms(2) by simp
  show ?thesis
    unfolding copy_page_lists_mt_def Let_def T
    using assms(1) pos
    by (simp add: alloc_first_failure [OF assms(2,3,4)] free_work_items_eq k)
qed


text \<open>
  C7. When the allocation of the descriptor of some worker \<open>cpu\<close> fails, the function
  returns \<open>-ENOMEM\<close>. With \<open>k\<close> the first worker whose allocation fails, its effects
  are the \<open>k\<close> allocations that succeeded followed by the release of exactly those \<open>k\<close>
  descriptors: no worker is queued and the copy routine is never called.
\<close>

theorem alloc_failure:
  assumes "\<not> CONFIG_HIGHMEM env"
    and "cpu < min limit_mt_num 64" and "\<not> kzalloc_ok env cpu"
  shows "\<exists>k\<le>cpu. copy_page_lists_mt env limit_mt_num dst_folios src_folios nr_items =
     Inr (- ENOMEM,
          \<lparr>work_items =
             replicate k (zeroed_work (max_items_per_thread nr_items (min limit_mt_num 64))),
           trace = map Kzalloc [0..<k] @ map Kfree [0..<k]\<rparr>)"
proof -
  let ?k = "LEAST c. \<not> kzalloc_ok env c"
  have le: "?k \<le> cpu"
    using assms(3) by (rule Least_le)
  have fails: "\<not> kzalloc_ok env ?k"
    using assms(3) by (rule LeastI [of "\<lambda>c. \<not> kzalloc_ok env c"])
  have before: "\<forall>c<?k. kzalloc_ok env c"
    using not_less_Least [of _ "\<lambda>c. \<not> kzalloc_ok env c"] by blast
  have lt: "?k < min limit_mt_num 64"
    using le assms(2) by simp
  show ?thesis
    using alloc_failure_first [OF assms(1) lt fails before] le by blast
qed

theorem alloc_failure_witness:
  "copy_page_lists_mt (env_no_memory_at 2) 4
     (map small_folio [100, 200, 300]) (map small_folio [1, 2, 3]) 3 =
   Inr (- 12, \<lparr>work_items = replicate 2 (zeroed_work 3),
               trace = [Kzalloc 0, Kzalloc 1, Kfree 0, Kfree 1]\<rparr>)"
proof -
  have h1: "\<not> CONFIG_HIGHMEM (env_no_memory_at 2)"
    by (simp add: env_no_memory_at_def env_ok_def)
  have h2: "(2::nat) < min 4 64"
    by simp
  have h3: "\<not> kzalloc_ok (env_no_memory_at 2) 2"
    by (simp add: env_no_memory_at_def)
  show ?thesis
    using alloc_failure [OF h1 h2 h3, of "map small_folio [100, 200, 300]"
        "map small_folio [1, 2, 3]" 3]
    by (simp add: mt_eval env_no_memory_at_def env_ok_def)
qed

subsection \<open>The loops over the workers\<close>

lemma fold_upd:
  "fold (\<lambda>c st. st\<lparr>work_items := (work_items st)[c := f c (work_items st ! c)]\<rparr>) [0..<n] st =
   st\<lparr>work_items := map (\<lambda>c. if c < n then f c (work_items st ! c) else work_items st ! c)
                        [0..<length (work_items st)]\<rparr>"
proof (induction n)
  case 0
  have "map ((!) (work_items st)) [0..<length (work_items st)] = work_items st"
    by (rule map_nth)
  then show ?case by simp
next
  case (Suc n)
  have "(map (\<lambda>c. if c < n then f c (work_items st ! c) else work_items st ! c)
           [0..<length (work_items st)])
          [n := f n (map (\<lambda>c. if c < n then f c (work_items st ! c) else work_items st ! c)
           [0..<length (work_items st)] ! n)]
        = map (\<lambda>c. if c < Suc n then f c (work_items st ! c) else work_items st ! c)
           [0..<length (work_items st)]"
    by (rule nth_equalityI) (auto simp: nth_list_update less_Suc_eq)
  then show ?case
    using Suc by simp
qed

lemma set_num_items_all:
  "for_each_cpu n (\<lambda>cpu. set_num_items cpu (g cpu)) st =
   st\<lparr>work_items := map (\<lambda>c. if c < n then (work_items st ! c)\<lparr>num_items := g c\<rparr>
                             else work_items st ! c) [0..<length (work_items st)]\<rparr>"
  unfolding for_each_cpu_def set_num_items_def
  by (rule fold_upd [where f = "\<lambda>c w. w\<lparr>num_items := g c\<rparr>"])

lemma set_item_all:
  "for_each_cpu n (\<lambda>cpu. set_item cpu idx (g cpu)) st =
   st\<lparr>work_items := map (\<lambda>c. if c < n
                             then (work_items st ! c)\<lparr>item_list := (item_list (work_items st ! c))[idx := g c]\<rparr>
                             else work_items st ! c) [0..<length (work_items st)]\<rparr>"
  unfolding for_each_cpu_def set_item_def
  by (rule fold_upd [where f = "\<lambda>c w. w\<lparr>item_list := (item_list w)[idx := g c]\<rparr>"])

lemma copy_events_worker [simp]:
  "copy_events env (copy_page_work_queue_thread env w) = copy_events env w"
  by (simp add: copy_events_def copy_page_work_queue_thread_def)

lemma queue_work_all:
  "n \<le> length (work_items st) \<Longrightarrow>
   for_each_cpu n (queue_work env) st =
   st\<lparr>work_items := map (\<lambda>c. if c < n then copy_page_work_queue_thread env (work_items st ! c)
                             else work_items st ! c) [0..<length (work_items st)],
      trace := trace st @ concat (map (\<lambda>c. Queue_work c # copy_events env (work_items st ! c)) [0..<n])\<rparr>"
  unfolding for_each_cpu_def
proof (induction n)
  case 0
  have "map ((!) (work_items st)) [0..<length (work_items st)] = work_items st"
    by (rule map_nth)
  then show ?case by simp
next
  case (Suc n)
  let ?ws = "map (\<lambda>c. if c < n then copy_page_work_queue_thread env (work_items st ! c)
                             else work_items st ! c) [0..<length (work_items st)]"
  have n: "n < length (work_items st)" using Suc.prems by simp
  have upd: "?ws[n := copy_page_work_queue_thread env (?ws ! n)] =
      map (\<lambda>c. if c < Suc n then copy_page_work_queue_thread env (work_items st ! c)
                             else work_items st ! c) [0..<length (work_items st)]"
    by (rule nth_equalityI) (auto simp: nth_list_update less_Suc_eq)
  have nth: "?ws ! n = work_items st ! n" using n by simp
  show ?case
    using Suc n upd by (simp add: queue_work_def nth)
qed

subsection \<open>The first branch: a part of each page for every worker\<close>

lemma fill_chunks_ok:
  assumes "length srcs \<le> length dsts" and "int (idx + length srcs) \<le> max_items"
  shows "\<exists>st'. fill_chunks env T max_items dsts srcs idx st = Inr st'
           \<and> trace st' = trace st
           \<and> length (work_items st') = length (work_items st)
           \<and> (\<forall>c<length (work_items st).
                 num_items (work_items st' ! c) = num_items (work_items st ! c)
                 \<and> length (item_list (work_items st' ! c)) =
                     length (item_list (work_items st ! c)))
           \<and> (\<forall>c<length (work_items st). c < T \<longrightarrow>
                 (\<forall>j<length srcs. idx + j < length (item_list (work_items st ! c)) \<longrightarrow>
                    item_list (work_items st' ! c) ! (idx + j) =
                      \<lparr>item_to = page_address (dsts ! j) +
                                  PAGE_SIZE env * folio_nr_pages (srcs ! j) div T * c,
                       item_from = page_address (srcs ! j) +
                                  PAGE_SIZE env * folio_nr_pages (srcs ! j) div T * c,
                       chunk_size = PAGE_SIZE env * folio_nr_pages (srcs ! j) div T\<rparr>)
                 \<and> (\<forall>j<idx. item_list (work_items st' ! c) ! j =
                              item_list (work_items st ! c) ! j))"
  using assms
proof (induction srcs arbitrary: dsts idx st)
  case Nil
  then show ?case by simp
next
  case (Cons src srcs)
  then obtain dst ds where dsts: "dsts = dst # ds"
    by (cases dsts) auto
  let ?G = "\<lambda>c d s. \<lparr>item_to = page_address d + PAGE_SIZE env * folio_nr_pages s div T * c,
                       item_from = page_address s + PAGE_SIZE env * folio_nr_pages s div T * c,
                       chunk_size = PAGE_SIZE env * folio_nr_pages s div T\<rparr>"
  let ?st1 = "for_each_cpu T
                   (\<lambda>cpu. set_item cpu idx
                      \<lparr>item_to = page_address dst + PAGE_SIZE env * folio_nr_pages src div T * cpu,
                       item_from = page_address src + PAGE_SIZE env * folio_nr_pages src div T * cpu,
                       chunk_size = PAGE_SIZE env * folio_nr_pages src div T\<rparr>) st"
  have st1: "trace ?st1 = trace st" "length (work_items ?st1) = length (work_items st)"
    "\<forall>c<length (work_items st). num_items (work_items ?st1 ! c) = num_items (work_items st ! c)
        \<and> length (item_list (work_items ?st1 ! c)) = length (item_list (work_items st ! c))"
    by (simp_all add: set_item_all)
  have items1: "\<And>c. c < length (work_items st) \<Longrightarrow> c < T \<Longrightarrow>
      item_list (work_items ?st1 ! c) = (item_list (work_items st ! c))[idx := ?G c dst src]"
    by (simp add: set_item_all)
  have "length srcs \<le> length ds" "int (Suc idx + length srcs) \<le> max_items"
    using Cons.prems dsts by simp_all
  from Cons.IH [OF this, of ?st1]
  obtain st' where st': "fill_chunks env T max_items ds srcs (Suc idx) ?st1 = Inr st'"
      "trace st' = trace ?st1" "length (work_items st') = length (work_items ?st1)"
      "\<forall>c<length (work_items ?st1). num_items (work_items st' ! c) = num_items (work_items ?st1 ! c)
        \<and> length (item_list (work_items st' ! c)) = length (item_list (work_items ?st1 ! c))"
      "\<forall>c<length (work_items ?st1). c < T \<longrightarrow>
                 (\<forall>j<length srcs. Suc idx + j < length (item_list (work_items ?st1 ! c)) \<longrightarrow>
                    item_list (work_items st' ! c) ! (Suc idx + j) = ?G c (ds ! j) (srcs ! j))
                 \<and> (\<forall>j<Suc idx. item_list (work_items st' ! c) ! j =
                              item_list (work_items ?st1 ! c) ! j)"
    by blast
  have "\<not> max_items \<le> int idx"
    using Cons.prems(2) by simp
  then have run: "fill_chunks env T max_items dsts (src # srcs) idx st = Inr st'"
    using st'(1) by (simp add: dsts Let_def)
  have items: "\<forall>c<length (work_items st). c < T \<longrightarrow>
                 (\<forall>j<length (src # srcs). idx + j < length (item_list (work_items st ! c)) \<longrightarrow>
                    item_list (work_items st' ! c) ! (idx + j) = ?G c (dsts ! j) ((src # srcs) ! j))
                 \<and> (\<forall>j<idx. item_list (work_items st' ! c) ! j =
                              item_list (work_items st ! c) ! j)"
  proof (intro allI impI conjI)
    fix c j
    assume c: "c < length (work_items st)" "c < T"
      and j: "j < length (src # srcs)" "idx + j < length (item_list (work_items st ! c))"
    note ih = st'(5) [rule_format, unfolded st1(2), OF c]
    show "item_list (work_items st' ! c) ! (idx + j) = ?G c (dsts ! j) ((src # srcs) ! j)"
    proof (cases j)
      case 0
      have "item_list (work_items st' ! c) ! idx = item_list (work_items ?st1 ! c) ! idx"
        using ih by simp
      then show ?thesis
        using 0 j(2) by (simp add: items1 [OF c] dsts)
    next
      case (Suc j')
      have "j' < length srcs" using j(1) Suc by simp
      moreover have "Suc idx + j' < length (item_list (work_items ?st1 ! c))"
        using j(2) Suc by (simp add: items1 [OF c])
      ultimately have "item_list (work_items st' ! c) ! (Suc idx + j') = ?G c (ds ! j') (srcs ! j')"
        using ih by blast
      then show ?thesis
        using Suc by (simp add: dsts)
    qed
  next
    fix c j
    assume c: "c < length (work_items st)" "c < T" and j: "j < idx"
    note ih = st'(5) [rule_format, unfolded st1(2), OF c]
    have "item_list (work_items st' ! c) ! j = item_list (work_items ?st1 ! c) ! j"
      using ih j by simp
    then show "item_list (work_items st' ! c) ! j = item_list (work_items st ! c) ! j"
      using j by (simp add: items1 [OF c])
  qed
  show ?case
    using run st'(2,3,4) st1 items by simp
qed

lemma dispatch_chunks_ok:
  assumes "length (work_items st) = T"
    and "length srcs \<le> length dsts" and "int (length srcs) \<le> max_items"
  shows "\<exists>st'. dispatch_chunks env T max_items dsts srcs st = Inr st'
           \<and> length (work_items st') = T
           \<and> (\<forall>c<T. num_items (work_items st' ! c) = ulong max_items
                 \<and> length (item_list (work_items st' ! c)) =
                     length (item_list (work_items st ! c))
                 \<and> ret (work_items st' ! c) =
                     copy_items env (take (num_items (work_items st' ! c))
                                       (item_list (work_items st' ! c))) 0
                 \<and> (\<forall>j<length srcs. j < length (item_list (work_items st ! c)) \<longrightarrow>
                      item_list (work_items st' ! c) ! j =
                        \<lparr>item_to = page_address (dsts ! j) +
                                    PAGE_SIZE env * folio_nr_pages (srcs ! j) div T * c,
                         item_from = page_address (srcs ! j) +
                                    PAGE_SIZE env * folio_nr_pages (srcs ! j) div T * c,
                         chunk_size = PAGE_SIZE env * folio_nr_pages (srcs ! j) div T\<rparr>))
           \<and> trace st' = trace st @
                concat (map (\<lambda>c. Queue_work c # copy_events env (work_items st' ! c)) [0..<T])"
proof -
  let ?G = "\<lambda>c d s. \<lparr>item_to = page_address d + PAGE_SIZE env * folio_nr_pages s div T * c,
                       item_from = page_address s + PAGE_SIZE env * folio_nr_pages s div T * c,
                       chunk_size = PAGE_SIZE env * folio_nr_pages s div T\<rparr>"
  let ?st1 = "for_each_cpu T (\<lambda>cpu. set_num_items cpu (ulong max_items)) st"
  have st1: "trace ?st1 = trace st" "length (work_items ?st1) = T"
    "\<forall>c<T. num_items (work_items ?st1 ! c) = ulong max_items
        \<and> length (item_list (work_items ?st1 ! c)) = length (item_list (work_items st ! c))"
    using assms(1) by (simp_all add: set_num_items_all)
  obtain st2 where st2: "fill_chunks env T max_items dsts srcs 0 ?st1 = Inr st2"
      "trace st2 = trace ?st1" "length (work_items st2) = length (work_items ?st1)"
      "\<forall>c<length (work_items ?st1). num_items (work_items st2 ! c) = num_items (work_items ?st1 ! c)
        \<and> length (item_list (work_items st2 ! c)) = length (item_list (work_items ?st1 ! c))"
      "\<forall>c<length (work_items ?st1). c < T \<longrightarrow>
          (\<forall>j<length srcs. 0 + j < length (item_list (work_items ?st1 ! c)) \<longrightarrow>
             item_list (work_items st2 ! c) ! (0 + j) = ?G c (dsts ! j) (srcs ! j))
          \<and> (\<forall>j<0. item_list (work_items st2 ! c) ! j = item_list (work_items ?st1 ! c) ! j)"
    using fill_chunks_ok [of srcs dsts 0 max_items env T ?st1] assms(2,3) by auto
  let ?st3 = "for_each_cpu T (queue_work env) st2"
  have len2: "length (work_items st2) = T"
    using st2(3) st1(2) by simp
  have st3: "?st3 = st2\<lparr>work_items := map (\<lambda>c. if c < T then copy_page_work_queue_thread env (work_items st2 ! c)
                             else work_items st2 ! c) [0..<length (work_items st2)],
      trace := trace st2 @ concat (map (\<lambda>c. Queue_work c # copy_events env (work_items st2 ! c)) [0..<T])\<rparr>"
    by (rule queue_work_all) (simp add: len2)
  have nth3: "\<forall>c<T. work_items ?st3 ! c = copy_page_work_queue_thread env (work_items st2 ! c)"
    unfolding st3 using len2 by simp
  have ev: "map (\<lambda>c. Queue_work c # copy_events env (work_items st2 ! c)) [0..<T]
          = map (\<lambda>c. Queue_work c # copy_events env (work_items ?st3 ! c)) [0..<T]"
    using nth3 by simp
  have items: "\<forall>c<T. \<forall>j<length srcs. j < length (item_list (work_items st ! c)) \<longrightarrow>
                  item_list (work_items ?st3 ! c) ! j = ?G c (dsts ! j) (srcs ! j)"
  proof (intro allI impI)
    fix c j
    assume c: "c < T" and j: "j < length srcs" "j < length (item_list (work_items st ! c))"
    have c1: "c < length (work_items ?st1)" using c st1(2) by simp
    have "0 + j < length (item_list (work_items ?st1 ! c))"
      using j(2) st1(3) c by simp
    with st2(5) [rule_format, OF c1 c] j(1)
    have "item_list (work_items st2 ! c) ! (0 + j) = ?G c (dsts ! j) (srcs ! j)"
      by blast
    moreover have "item_list (work_items ?st3 ! c) = item_list (work_items st2 ! c)"
      using nth3 c by (simp add: copy_page_work_queue_thread_def)
    ultimately show "item_list (work_items ?st3 ! c) ! j = ?G c (dsts ! j) (srcs ! j)"
      by simp
  qed
  have "dispatch_chunks env T max_items dsts srcs st = Inr ?st3"
    by (simp add: dispatch_chunks_def st2(1))
  moreover have "length (work_items ?st3) = T"
    unfolding st3 using len2 by simp
  moreover have "\<forall>c<T. num_items (work_items ?st3 ! c) = ulong max_items
                 \<and> length (item_list (work_items ?st3 ! c)) =
                     length (item_list (work_items st ! c))
                 \<and> ret (work_items ?st3 ! c) =
                     copy_items env (take (num_items (work_items ?st3 ! c))
                                       (item_list (work_items ?st3 ! c))) 0"
    using nth3 st2(4) st1(2,3) by (simp add: copy_page_work_queue_thread_def)
  moreover have "trace ?st3 = trace st @
                concat (map (\<lambda>c. Queue_work c # copy_events env (work_items ?st3 ! c)) [0..<T])"
    unfolding ev [symmetric] by (subst st3) (simp add: st2(2) st1(1))
  ultimately show ?thesis
    using items by blast
qed

subsection \<open>The second branch: whole folios, block by block\<close>

text \<open>
  The walk hands the folios out in blocks: with worker \<open>cpu\<close> filled up to
  \<open>per_cpu_item_idx\<close> and as many folios left as the workers from \<open>cpu\<close> on still
  take, it ends without a fault, every worker from \<open>cpu\<close> on is queued once, in order,
  and each has run on its own list.
\<close>

lemma fill_folios_ok:
  assumes "length (work_items st) = T"
    and "\<forall>c. cpu \<le> c \<and> c < T \<longrightarrow>
           0 < num_items (work_items st ! c) \<and>
           num_items (work_items st ! c) \<le> length (item_list (work_items st ! c))"
    and "length srcs \<le> length dsts"
    and "cpu < T \<longrightarrow> pidx < num_items (work_items st ! cpu)"
    and "length srcs =
           (if cpu < T
            then num_items (work_items st ! cpu) - pidx +
                 (\<Sum>c = Suc cpu..<T. num_items (work_items st ! c))
            else 0)"
  shows "\<exists>st'. fill_folios env dsts srcs cpu pidx idx st = Inr (idx + length srcs, st')
           \<and> length (work_items st') = T
           \<and> (\<forall>c<cpu. work_items st' ! c = work_items st ! c)
           \<and> (\<forall>c<T. num_items (work_items st' ! c) = num_items (work_items st ! c)
                 \<and> length (item_list (work_items st' ! c)) =
                     length (item_list (work_items st ! c)))
           \<and> (\<forall>c. cpu \<le> c \<and> c < T \<longrightarrow>
                 ret (work_items st' ! c) =
                   copy_items env (take (num_items (work_items st' ! c))
                                     (item_list (work_items st' ! c))) 0)
           \<and> trace st' = trace st @
                concat (map (\<lambda>c. Queue_work c # copy_events env (work_items st' ! c)) [cpu..<T])
           \<and> concat (map (\<lambda>c. take (num_items (work_items st' ! c)) (item_list (work_items st' ! c)))
                       [cpu..<T]) =
                (if cpu < T then take pidx (item_list (work_items st ! cpu)) else []) @
                map (\<lambda>(d, s). \<lparr>item_to = page_address d, item_from = page_address s,
                              chunk_size = PAGE_SIZE env * folio_nr_pages s\<rparr>) (zip dsts srcs)"
  using assms
proof (induction srcs arbitrary: dsts cpu pidx idx st)
  case Nil
  have "\<not> cpu < T"
  proof
    assume "cpu < T"
    with Nil.prems(4,5) show False by simp
  qed
  then show ?case
    using Nil.prems(1) by simp
next
  case (Cons src srcs)
  obtain dst ds where dsts: "dsts = dst # ds"
    using Cons.prems(3) by (cases dsts) auto
  have cpu: "cpu < T"
    using Cons.prems(5) by (cases "cpu < T") simp_all
  let ?ws = "work_items st"
  let ?n = "num_items (?ws ! cpu)"
  have pidx: "pidx < ?n" and cap: "?n \<le> length (item_list (?ws ! cpu))"
    using Cons.prems(2,4) cpu by auto
  let ?it = "\<lparr>item_to = page_address dst, item_from = page_address src,
              chunk_size = PAGE_SIZE env * folio_nr_pages src\<rparr>"
  let ?st1 = "set_item cpu pidx ?it st"
  have ws1: "work_items ?st1 = ?ws[cpu := (?ws ! cpu)\<lparr>item_list := (item_list (?ws ! cpu))[pidx := ?it]\<rparr>]"
    and tr1: "trace ?st1 = trace st"
    by (simp_all add: set_item_def)
  have len1: "length (work_items ?st1) = T"
    using Cons.prems(1) by (simp add: ws1)
  have other1: "\<And>c. c \<noteq> cpu \<Longrightarrow> work_items ?st1 ! c = ?ws ! c"
    by (simp add: ws1)
  have num1: "\<And>c. c < T \<Longrightarrow> num_items (work_items ?st1 ! c) = num_items (?ws ! c)"
    using Cons.prems(1) cpu by (simp add: ws1 nth_list_update)
  have cap1: "\<And>c. c < T \<Longrightarrow> length (item_list (work_items ?st1 ! c)) = length (item_list (?ws ! c))"
    using Cons.prems(1) cpu by (simp add: ws1 nth_list_update)
  have nofault: "\<not> length ?ws \<le> cpu" "\<not> length (item_list (?ws ! cpu)) \<le> pidx"
    using cpu Cons.prems(1) pidx cap by simp_all
  have lens: "length srcs \<le> length ds"
    using Cons.prems(3) dsts by simp
  have upd: "take (Suc pidx) ((item_list (?ws ! cpu))[pidx := ?it]) = take pidx (item_list (?ws ! cpu)) @ [?it]"
    using pidx cap by (simp add: take_Suc_conv_app_nth)
  have il1: "item_list (work_items ?st1 ! cpu) = (item_list (?ws ! cpu))[pidx := ?it]"
    using Cons.prems(1) cpu by (simp add: ws1)
  have total: "Suc (length srcs) = ?n - pidx + (\<Sum>c = Suc cpu..<T. num_items (?ws ! c))"
    using Cons.prems(5) cpu by simp
  show ?case
  proof (cases "pidx + 1 = ?n")
    case True
    let ?st2 = "queue_work env cpu ?st1"
    have ws2: "work_items ?st2 = (work_items ?st1)[cpu := copy_page_work_queue_thread env (work_items ?st1 ! cpu)]"
      and tr2: "trace ?st2 = trace st @ Queue_work cpu # copy_events env (work_items ?st1 ! cpu)"
      by (simp_all add: queue_work_def tr1)
    have len2: "length (work_items ?st2) = T"
      using len1 by (simp add: ws2)
    have other2: "\<And>c. c \<noteq> cpu \<Longrightarrow> work_items ?st2 ! c = ?ws ! c"
      using other1 by (simp add: ws2)
    have at2: "work_items ?st2 ! cpu = copy_page_work_queue_thread env (work_items ?st1 ! cpu)"
      using len1 cpu by (simp add: ws2)
    have num2: "\<And>c. c < T \<Longrightarrow> num_items (work_items ?st2 ! c) = num_items (?ws ! c)"
    proof -
      fix c assume "c < T"
      then show "num_items (work_items ?st2 ! c) = num_items (?ws ! c)"
        using num1 [of c] other2 [of c] at2
        by (cases "c = cpu") (simp_all add: copy_page_work_queue_thread_def)
    qed
    have cap2: "\<And>c. c < T \<Longrightarrow>
        length (item_list (work_items ?st2 ! c)) = length (item_list (?ws ! c))"
    proof -
      fix c assume "c < T"
      then show "length (item_list (work_items ?st2 ! c)) = length (item_list (?ws ! c))"
        using cap1 [of c] other2 [of c] at2
        by (cases "c = cpu") (simp_all add: copy_page_work_queue_thread_def)
    qed
    have a2: "\<forall>c. Suc cpu \<le> c \<and> c < T \<longrightarrow>
           0 < num_items (work_items ?st2 ! c) \<and>
           num_items (work_items ?st2 ! c) \<le> length (item_list (work_items ?st2 ! c))"
      using Cons.prems(2) other2 by auto
    have a4: "Suc cpu < T \<longrightarrow> 0 < num_items (work_items ?st2 ! Suc cpu)"
      using a2 by auto
    have sum_eq: "(\<Sum>c = Suc cpu..<T. num_items (?ws ! c)) =
        (if Suc cpu < T
         then num_items (work_items ?st2 ! Suc cpu) - 0 +
              (\<Sum>c = Suc (Suc cpu)..<T. num_items (work_items ?st2 ! c))
         else 0)"
    proof (cases "Suc cpu < T")
      case True
      have "(\<Sum>c = Suc cpu..<T. num_items (?ws ! c)) =
            num_items (?ws ! Suc cpu) + (\<Sum>c = Suc (Suc cpu)..<T. num_items (?ws ! c))"
        using True by (simp add: sum.atLeast_Suc_lessThan)
      moreover have "(\<Sum>c = Suc (Suc cpu)..<T. num_items (?ws ! c)) =
            (\<Sum>c = Suc (Suc cpu)..<T. num_items (work_items ?st2 ! c))"
        by (rule sum.cong) (simp_all add: other2)
      ultimately show ?thesis
        using True other2 [of "Suc cpu"] by simp
    next
      case False
      then show ?thesis by simp
    qed
    have a5: "length srcs =
        (if Suc cpu < T
         then num_items (work_items ?st2 ! Suc cpu) - 0 +
              (\<Sum>c = Suc (Suc cpu)..<T. num_items (work_items ?st2 ! c))
         else 0)"
      using total True sum_eq by simp
    from Cons.IH [OF len2 a2 lens a4 a5, of "Suc idx"]
    obtain st' where st': "fill_folios env ds srcs (Suc cpu) 0 (Suc idx) ?st2 = Inr (Suc idx + length srcs, st')"
      "length (work_items st') = T"
      "\<forall>c<Suc cpu. work_items st' ! c = work_items ?st2 ! c"
      "\<forall>c<T. num_items (work_items st' ! c) = num_items (work_items ?st2 ! c)
          \<and> length (item_list (work_items st' ! c)) = length (item_list (work_items ?st2 ! c))"
      "\<forall>c. Suc cpu \<le> c \<and> c < T \<longrightarrow>
                 ret (work_items st' ! c) =
                   copy_items env (take (num_items (work_items st' ! c))
                                     (item_list (work_items st' ! c))) 0"
      "trace st' = trace ?st2 @
                concat (map (\<lambda>c. Queue_work c # copy_events env (work_items st' ! c)) [Suc cpu..<T])"
      "concat (map (\<lambda>c. take (num_items (work_items st' ! c)) (item_list (work_items st' ! c)))
                       [Suc cpu..<T]) =
                (if Suc cpu < T then take 0 (item_list (work_items ?st2 ! Suc cpu)) else []) @
                map (\<lambda>(d, s). \<lparr>item_to = page_address d, item_from = page_address s,
                              chunk_size = PAGE_SIZE env * folio_nr_pages s\<rparr>) (zip ds srcs)"
      by blast
    have at': "work_items st' ! cpu = copy_page_work_queue_thread env (work_items ?st1 ! cpu)"
      using st'(3) at2 by simp
    have run: "fill_folios env dsts (src # srcs) cpu pidx idx st = Inr (idx + length (src # srcs), st')"
      using nofault True num1 [OF cpu] st'(1) by (simp add: dsts Let_def)
    have frame: "\<forall>c<cpu. work_items st' ! c = ?ws ! c"
      using st'(3) other2 by simp
    have nums: "\<forall>c<T. num_items (work_items st' ! c) = num_items (?ws ! c)
          \<and> length (item_list (work_items st' ! c)) = length (item_list (?ws ! c))"
      using st'(4) num2 cap2 by simp
    have rets: "\<forall>c. cpu \<le> c \<and> c < T \<longrightarrow>
                 ret (work_items st' ! c) =
                   copy_items env (take (num_items (work_items st' ! c))
                                     (item_list (work_items st' ! c))) 0"
    proof (intro allI impI)
      fix c assume c: "cpu \<le> c \<and> c < T"
      show "ret (work_items st' ! c) =
                   copy_items env (take (num_items (work_items st' ! c))
                                     (item_list (work_items st' ! c))) 0"
      proof (cases "c = cpu")
        case True
        then show ?thesis
          by (simp add: at' copy_page_work_queue_thread_def)
      next
        case False
        then show ?thesis using c st'(5) by simp
      qed
    qed
    have "[cpu..<T] = cpu # [Suc cpu..<T]"
      using cpu by (simp add: upt_conv_Cons)
    then have tr: "trace st' = trace st @
                concat (map (\<lambda>c. Queue_work c # copy_events env (work_items st' ! c)) [cpu..<T])"
      using st'(6) tr2 at' by simp
    have "take (num_items (work_items st' ! cpu)) (item_list (work_items st' ! cpu)) =
          take pidx (item_list (?ws ! cpu)) @ [?it]"
      using True num1 [OF cpu] upd by (simp add: at' copy_page_work_queue_thread_def il1)
    moreover have "concat (map (\<lambda>c. take (num_items (work_items st' ! c)) (item_list (work_items st' ! c)))
                       [Suc cpu..<T]) = map (\<lambda>(d, s). \<lparr>item_to = page_address d, item_from = page_address s,
                              chunk_size = PAGE_SIZE env * folio_nr_pages s\<rparr>) (zip ds srcs)"
      using st'(7) by simp
    ultimately have items: "concat (map (\<lambda>c. take (num_items (work_items st' ! c)) (item_list (work_items st' ! c)))
                       [cpu..<T]) =
                (if cpu < T then take pidx (item_list (work_items st ! cpu)) else []) @
                map (\<lambda>(d, s). \<lparr>item_to = page_address d, item_from = page_address s,
                              chunk_size = PAGE_SIZE env * folio_nr_pages s\<rparr>) (zip dsts (src # srcs))"
      using cpu \<open>[cpu..<T] = cpu # [Suc cpu..<T]\<close> by (simp add: dsts)
    show ?thesis
      using run st'(2) frame nums rets tr items by blast
  next
    case False
    have a2: "\<forall>c. cpu \<le> c \<and> c < T \<longrightarrow>
           0 < num_items (work_items ?st1 ! c) \<and>
           num_items (work_items ?st1 ! c) \<le> length (item_list (work_items ?st1 ! c))"
      using Cons.prems(2) num1 cap1 by simp
    have a4: "cpu < T \<longrightarrow> Suc pidx < num_items (work_items ?st1 ! cpu)"
      using False pidx num1 [OF cpu] by simp
    have "(\<Sum>c = Suc cpu..<T. num_items (?ws ! c)) =
            (\<Sum>c = Suc cpu..<T. num_items (work_items ?st1 ! c))"
      by (rule sum.cong) (simp_all add: num1)
    then have a5: "length srcs =
        (if cpu < T
         then num_items (work_items ?st1 ! cpu) - Suc pidx +
              (\<Sum>c = Suc cpu..<T. num_items (work_items ?st1 ! c))
         else 0)"
      using total cpu pidx False num1 [OF cpu] by simp
    from Cons.IH [OF len1 a2 lens a4 a5, of "Suc idx"]
    obtain st' where st': "fill_folios env ds srcs cpu (Suc pidx) (Suc idx) ?st1 = Inr (Suc idx + length srcs, st')"
      "length (work_items st') = T"
      "\<forall>c<cpu. work_items st' ! c = work_items ?st1 ! c"
      "\<forall>c<T. num_items (work_items st' ! c) = num_items (work_items ?st1 ! c)
          \<and> length (item_list (work_items st' ! c)) = length (item_list (work_items ?st1 ! c))"
      "\<forall>c. cpu \<le> c \<and> c < T \<longrightarrow>
                 ret (work_items st' ! c) =
                   copy_items env (take (num_items (work_items st' ! c))
                                     (item_list (work_items st' ! c))) 0"
      "trace st' = trace ?st1 @
                concat (map (\<lambda>c. Queue_work c # copy_events env (work_items st' ! c)) [cpu..<T])"
      "concat (map (\<lambda>c. take (num_items (work_items st' ! c)) (item_list (work_items st' ! c)))
                       [cpu..<T]) =
                (if cpu < T then take (Suc pidx) (item_list (work_items ?st1 ! cpu)) else []) @
                map (\<lambda>(d, s). \<lparr>item_to = page_address d, item_from = page_address s,
                              chunk_size = PAGE_SIZE env * folio_nr_pages s\<rparr>) (zip ds srcs)"
      by blast
    have run: "fill_folios env dsts (src # srcs) cpu pidx idx st = Inr (idx + length (src # srcs), st')"
      using nofault False num1 [OF cpu] st'(1) by (simp add: dsts Let_def)
    have frame: "\<forall>c<cpu. work_items st' ! c = ?ws ! c"
      using st'(3) other1 by simp
    have nums: "\<forall>c<T. num_items (work_items st' ! c) = num_items (?ws ! c)
          \<and> length (item_list (work_items st' ! c)) = length (item_list (?ws ! c))"
      using st'(4) num1 cap1 by simp
    have items: "concat (map (\<lambda>c. take (num_items (work_items st' ! c)) (item_list (work_items st' ! c)))
                       [cpu..<T]) =
                (if cpu < T then take pidx (item_list (work_items st ! cpu)) else []) @
                map (\<lambda>(d, s). \<lparr>item_to = page_address d, item_from = page_address s,
                              chunk_size = PAGE_SIZE env * folio_nr_pages s\<rparr>) (zip dsts (src # srcs))"
      using st'(7) cpu upd by (simp add: il1 dsts)
    have tr: "trace st' = trace st @
                concat (map (\<lambda>c. Queue_work c # copy_events env (work_items st' ! c)) [cpu..<T])"
      using st'(6) tr1 by simp
    show ?thesis
      using run st'(2) frame nums st'(5) tr items by blast
  qed
qed

lemma u32_nat: "0 \<le> x \<Longrightarrow> x < 2 ^ 32 \<Longrightarrow> u32 x = nat x"
  by (simp add: u32_def)

lemma s32_int: "n < 2 ^ 31 \<Longrightarrow> s32 n = int n"
  by (simp add: s32_def)

lemma ulong_nat: "0 \<le> x \<Longrightarrow> x < 2 ^ 64 \<Longrightarrow> ulong x = nat x"
  by (simp add: ulong_def)

lemma sum_extra: "(\<Sum>c = 0..<T. if c < r then 1 else 0) = min r (T::nat)"
  by (induction T) auto

lemma sum_shares:
  assumes "0 < T"
  shows "(\<Sum>c = 0..<T. n div T + (if c < n mod T then 1 else 0)) = (n::nat)"
proof -
  have "n mod T < T" using assms by simp
  then have "min (n mod T) T = n mod T" by simp
  then have "(\<Sum>c = 0..<T. n div T + (if c < n mod T then 1 else 0)) = T * (n div T) + n mod T"
    by (simp add: sum.distrib sum_extra)
  then show ?thesis by simp
qed

lemma wait_all_eq:
  "wait_all n st err = (if \<exists>i<n. ret (work_items st ! i) \<noteq> 0 then - EAGAIN else err)"
  unfolding wait_all_def for_each_cpu_def
  by (induction n) (auto simp: less_Suc_eq)

lemma copy_items_eq_0:
  "copy_items env its r = 0 \<longleftrightarrow>
     r = 0 \<and> (\<forall>it\<in>set its. copy_page_routine env (item_to it) (item_from it) (chunk_size it) = 0)"
  by (induction its arbitrary: r) (auto simp: or_eq_0_iff)

lemma dispatch_folios_ok:
  assumes len: "length (work_items st) = T" and T: "0 < T"
    and N: "0 \<le> N" "N < 2 ^ 31" and TN: "T \<le> nat N"
    and srcs: "length srcs = nat N" and dsts: "length srcs \<le> length dsts"
    and cap: "\<forall>c<T. nat N div T + (if nat N mod T \<noteq> 0 then 1 else 0)
                  \<le> length (item_list (work_items st ! c))"
  shows "\<exists>st'. dispatch_folios env T N dsts srcs st = Inr st'
           \<and> length (work_items st') = T
           \<and> (\<forall>c<T. num_items (work_items st' ! c) =
                   nat N div T + (if c < nat N mod T then 1 else 0)
                 \<and> length (item_list (work_items st' ! c)) =
                     length (item_list (work_items st ! c))
                 \<and> ret (work_items st' ! c) =
                     copy_items env (take (num_items (work_items st' ! c))
                                       (item_list (work_items st' ! c))) 0)
           \<and> trace st' = trace st @
                concat (map (\<lambda>c. Queue_work c # copy_events env (work_items st' ! c)) [0..<T])
           \<and> concat (map (\<lambda>c. take (num_items (work_items st' ! c)) (item_list (work_items st' ! c)))
                       [0..<T]) =
                map (\<lambda>(d, s). \<lparr>item_to = page_address d, item_from = page_address s,
                              chunk_size = PAGE_SIZE env * folio_nr_pages s\<rparr>) (zip dsts srcs)"
proof -
  let ?n = "nat N"
  let ?cnt = "\<lambda>c. ?n div T + (if c < ?n mod T then 1 else 0)"
  have u: "u32 N = ?n"
    using N by (simp add: u32_nat)
  have "?n div T \<le> ?n" by simp
  moreover have n31: "?n < 2 ^ 31" using N by (simp add: nat_less_iff)
  ultimately have q31: "?n div T < 2 ^ 31" by linarith
  have s: "s32 (?n div T) = int (?n div T)"
    using q31 by (rule s32_int)
  have ul: "\<And>c. ulong (int (?n div T) + (if c < ?n mod T then 1 else 0)) = ?cnt c"
  proof -
    fix c
    have "int (?n div T) + (if c < ?n mod T then 1 else 0) < 2 ^ 64"
      using q31 by auto
    then show "ulong (int (?n div T) + (if c < ?n mod T then 1 else 0)) = ?cnt c"
      by (subst ulong_nat) auto
  qed
  let ?st1 = "for_each_cpu T (\<lambda>cpu. set_num_items cpu (?cnt cpu)) st"
  have ws1: "work_items ?st1 = map (\<lambda>c. if c < T then (work_items st ! c)\<lparr>num_items := ?cnt c\<rparr>
                             else work_items st ! c) [0..<T]"
    and tr1: "trace ?st1 = trace st"
    using len by (simp_all add: set_num_items_all)
  have len1: "length (work_items ?st1) = T"
    by (simp add: ws1)
  have nth1: "\<And>c. c < T \<Longrightarrow> work_items ?st1 ! c = (work_items st ! c)\<lparr>num_items := ?cnt c\<rparr>"
    by (simp add: ws1)
  have q1: "0 < ?n div T"
    using T TN by (simp add: div_greater_zero_iff)
  have a2: "\<forall>c. 0 \<le> c \<and> c < T \<longrightarrow>
           0 < num_items (work_items ?st1 ! c) \<and>
           num_items (work_items ?st1 ! c) \<le> length (item_list (work_items ?st1 ! c))"
  proof (intro allI impI)
    fix c assume c: "0 \<le> c \<and> c < T"
    have "?cnt c \<le> ?n div T + (if ?n mod T \<noteq> 0 then 1 else 0)"
      by auto
    then have "?cnt c \<le> length (item_list (work_items st ! c))"
      using cap c by (meson le_trans)
    then show "0 < num_items (work_items ?st1 ! c) \<and>
           num_items (work_items ?st1 ! c) \<le> length (item_list (work_items ?st1 ! c))"
      using c q1 by (simp add: nth1)
  qed
  have a4: "0 < T \<longrightarrow> 0 < num_items (work_items ?st1 ! 0)"
    using a2 by auto
  have "(\<Sum>c = 0..<T. num_items (work_items ?st1 ! c)) = (\<Sum>c = 0..<T. ?cnt c)"
    by (rule sum.cong) (simp_all add: nth1)
  then have "(\<Sum>c = 0..<T. num_items (work_items ?st1 ! c)) = ?n"
    using sum_shares [OF T, of ?n] by simp
  then have "num_items (work_items ?st1 ! 0) + (\<Sum>c = Suc 0..<T. num_items (work_items ?st1 ! c)) = ?n"
    using T by (simp add: sum.atLeast_Suc_lessThan)
  then have a5: "length srcs =
           (if 0 < T
            then num_items (work_items ?st1 ! 0) - 0 +
                 (\<Sum>c = Suc 0..<T. num_items (work_items ?st1 ! c))
            else 0)"
    using T srcs by simp
  from fill_folios_ok [OF len1 a2 dsts a4 a5, of env 0]
  obtain st' where st': "fill_folios env dsts srcs 0 0 0 ?st1 = Inr (0 + length srcs, st')"
      "length (work_items st') = T"
      "\<forall>c<T. num_items (work_items st' ! c) = num_items (work_items ?st1 ! c)
          \<and> length (item_list (work_items st' ! c)) = length (item_list (work_items ?st1 ! c))"
      "\<forall>c. 0 \<le> c \<and> c < T \<longrightarrow>
                 ret (work_items st' ! c) =
                   copy_items env (take (num_items (work_items st' ! c))
                                     (item_list (work_items st' ! c))) 0"
      "trace st' = trace ?st1 @
                concat (map (\<lambda>c. Queue_work c # copy_events env (work_items st' ! c)) [0..<T])"
      "concat (map (\<lambda>c. take (num_items (work_items st' ! c)) (item_list (work_items st' ! c)))
                       [0..<T]) =
                (if 0 < T then take 0 (item_list (work_items ?st1 ! 0)) else []) @
                map (\<lambda>(d, s). \<lparr>item_to = page_address d, item_from = page_address s,
                              chunk_size = PAGE_SIZE env * folio_nr_pages s\<rparr>) (zip dsts srcs)"
    by blast
  have "int (length srcs) = N"
    using srcs N by simp
  then have "dispatch_folios env T N dsts srcs st = Inr st'"
    using st'(1) by (simp add: dispatch_folios_def u s ul)
  moreover have "\<forall>c<T. num_items (work_items st' ! c) = ?cnt c
          \<and> length (item_list (work_items st' ! c)) = length (item_list (work_items st ! c))"
    using st'(3) by (simp add: nth1)
  moreover have "concat (map (\<lambda>c. take (num_items (work_items st' ! c)) (item_list (work_items st' ! c)))
                       [0..<T]) =
                map (\<lambda>(d, s). \<lparr>item_to = page_address d, item_from = page_address s,
                              chunk_size = PAGE_SIZE env * folio_nr_pages s\<rparr>) (zip dsts srcs)"
    using st'(6) by simp
  ultimately show ?thesis
    using st'(2,4,5) tr1 by auto
qed

subsection \<open>The whole dispatch\<close>

lemma max_items_folios:
  assumes "0 < T" "n < 2 ^ 31"
  shows "s32 (n div T + (if n mod T \<noteq> 0 then 1 else 0)) =
         int (n div T + (if n mod T \<noteq> 0 then 1 else 0))"
proof (rule s32_int, cases "n mod T = 0")
  case True
  have "n div T \<le> n" by simp
  then have "n div T < 2 ^ 31" using assms(2) by linarith
  then show "n div T + (if n mod T \<noteq> 0 then 1 else 0) < 2 ^ 31"
    using True by simp
next
  case False
  then have "T \<noteq> 1" by auto
  then have "2 \<le> T" using assms(1) by simp
  then have "2 * (n div T) \<le> T * (n div T)" by simp
  also have "\<dots> \<le> n" by simp
  finally have "2 * (n div T) < 2 ^ 31" using assms(2) by simp
  then show "n div T + (if n mod T \<noteq> 0 then 1 else 0) < 2 ^ 31"
    by simp
qed

lemma copy_page_lists_mt_dispatched:
  assumes hm: "\<not> CONFIG_HIGHMEM env"
    and T: "T = min limit_mt_num 64" "0 < T"
    and ok: "\<forall>c<T. kzalloc_ok env c"
    and N: "0 \<le> N" "N < 2 ^ 31"
    and srcs: "length srcs = nat N" and dsts: "length srcs \<le> length dsts"
  shows "\<exists>st. copy_page_lists_mt env limit_mt_num dsts srcs N =
              Inr (if \<exists>c<T. ret (work_items st ! c) \<noteq> 0 then - EAGAIN else 0, st)
           \<and> length (work_items st) = T
           \<and> (\<forall>c<T. num_items (work_items st ! c) =
                   (if nat N < T then nat N
                    else nat N div T + (if c < nat N mod T then 1 else 0))
                 \<and> num_items (work_items st ! c) \<le> length (item_list (work_items st ! c))
                 \<and> ret (work_items st ! c) =
                     copy_items env (take (num_items (work_items st ! c))
                                       (item_list (work_items st ! c))) 0)
           \<and> trace st = map Kzalloc [0..<T] @
                concat (map (\<lambda>c. Queue_work c # copy_events env (work_items st ! c)) [0..<T]) @
                map Kfree [0..<T]
           \<and> (if nat N < T
                then \<forall>c<T. take (num_items (work_items st ! c)) (item_list (work_items st ! c)) =
                       map (\<lambda>(d, s). \<lparr>item_to = page_address d + PAGE_SIZE env * folio_nr_pages s div T * c,
                             item_from = page_address s + PAGE_SIZE env * folio_nr_pages s div T * c,
                             chunk_size = PAGE_SIZE env * folio_nr_pages s div T\<rparr>) (zip dsts srcs)
                else concat (map (\<lambda>c. take (num_items (work_items st ! c))
                                          (item_list (work_items st ! c))) [0..<T]) =
                       map (\<lambda>(d, s). \<lparr>item_to = page_address d, item_from = page_address s,
                              chunk_size = PAGE_SIZE env * folio_nr_pages s\<rparr>) (zip dsts srcs))"
proof -
  let ?n = "nat N"
  let ?M = "max_items_per_thread N T"
  let ?st1 = "\<lparr>work_items = replicate T (zeroed_work ?M), trace = map Kzalloc [0..<T]\<rparr>"
  have clamp: "(if limit_mt_num > MAX_NUM_COPY_THREADS then MAX_NUM_COPY_THREADS else limit_mt_num) = T"
    using T(1) by (simp add: MAX_NUM_COPY_THREADS_def min_def)
  have pp: "part_of_each_page N T \<longleftrightarrow> ?n < T"
    using N by (simp add: part_of_each_page_def u32_nat)
  have alloc: "alloc_work_items env ?M [0..<T] \<lparr>work_items = [], trace = []\<rparr> = (True, ?st1)"
    using alloc_all_ok [OF ok, of ?M "\<lparr>work_items = [], trace = []\<rparr>"] by simp
  have len1: "length (work_items ?st1) = T"
    by simp
  have "\<exists>st2. (if part_of_each_page N T
               then dispatch_chunks env T ?M dsts srcs ?st1
               else dispatch_folios env T N dsts srcs ?st1) = Inr st2
           \<and> length (work_items st2) = T
           \<and> (\<forall>c<T. num_items (work_items st2 ! c) =
                   (if ?n < T then ?n else ?n div T + (if c < ?n mod T then 1 else 0))
                 \<and> num_items (work_items st2 ! c) \<le> length (item_list (work_items st2 ! c))
                 \<and> ret (work_items st2 ! c) =
                     copy_items env (take (num_items (work_items st2 ! c))
                                       (item_list (work_items st2 ! c))) 0)
           \<and> trace st2 = trace ?st1 @
                concat (map (\<lambda>c. Queue_work c # copy_events env (work_items st2 ! c)) [0..<T])
           \<and> (if nat N < T
                then \<forall>c<T. take (num_items (work_items st2 ! c)) (item_list (work_items st2 ! c)) =
                       map (\<lambda>(d, s). \<lparr>item_to = page_address d + PAGE_SIZE env * folio_nr_pages s div T * c,
                             item_from = page_address s + PAGE_SIZE env * folio_nr_pages s div T * c,
                             chunk_size = PAGE_SIZE env * folio_nr_pages s div T\<rparr>) (zip dsts srcs)
                else concat (map (\<lambda>c. take (num_items (work_items st2 ! c))
                                          (item_list (work_items st2 ! c))) [0..<T]) =
                       map (\<lambda>(d, s). \<lparr>item_to = page_address d, item_from = page_address s,
                              chunk_size = PAGE_SIZE env * folio_nr_pages s\<rparr>) (zip dsts srcs))"
  proof (cases "?n < T")
    case True
    have M: "?M = N"
      using True pp by (simp add: max_items_per_thread_def)
    have "int (length srcs) \<le> ?M"
      using srcs N M by simp
    from dispatch_chunks_ok [OF len1 dsts this, of env]
    obtain st2 where st2: "dispatch_chunks env T ?M dsts srcs ?st1 = Inr st2"
        "length (work_items st2) = T"
        "\<forall>c<T. num_items (work_items st2 ! c) = ulong ?M
                 \<and> length (item_list (work_items st2 ! c)) =
                     length (item_list (work_items ?st1 ! c))
                 \<and> ret (work_items st2 ! c) =
                     copy_items env (take (num_items (work_items st2 ! c))
                                       (item_list (work_items st2 ! c))) 0
                 \<and> (\<forall>j<length srcs. j < length (item_list (work_items ?st1 ! c)) \<longrightarrow>
                      item_list (work_items st2 ! c) ! j =
                        \<lparr>item_to = page_address (dsts ! j) +
                                    PAGE_SIZE env * folio_nr_pages (srcs ! j) div T * c,
                         item_from = page_address (srcs ! j) +
                                    PAGE_SIZE env * folio_nr_pages (srcs ! j) div T * c,
                         chunk_size = PAGE_SIZE env * folio_nr_pages (srcs ! j) div T\<rparr>)"
        "trace st2 = trace ?st1 @
                concat (map (\<lambda>c. Queue_work c # copy_events env (work_items st2 ! c)) [0..<T])"
      by blast
    have ul: "ulong ?M = ?n"
      using N M by (simp add: ulong_nat)
    have cap: "\<forall>c<T. length (item_list (work_items ?st1 ! c)) = ?n"
      by (simp add: M zeroed_work_def)
    have facts: "\<forall>c<T. num_items (work_items st2 ! c) = ?n
                 \<and> num_items (work_items st2 ! c) \<le> length (item_list (work_items st2 ! c))
                 \<and> ret (work_items st2 ! c) =
                     copy_items env (take (num_items (work_items st2 ! c))
                                       (item_list (work_items st2 ! c))) 0"
      using st2(3) ul cap by simp
    have its: "\<forall>c<T. take (num_items (work_items st2 ! c)) (item_list (work_items st2 ! c)) =
                       map (\<lambda>(d, s). \<lparr>item_to = page_address d + PAGE_SIZE env * folio_nr_pages s div T * c,
                             item_from = page_address s + PAGE_SIZE env * folio_nr_pages s div T * c,
                             chunk_size = PAGE_SIZE env * folio_nr_pages s div T\<rparr>) (zip dsts srcs)"
    proof (intro allI impI)
      fix c assume c: "c < T"
      note f = st2(3) [rule_format, OF c]
      have capc: "length (item_list (work_items ?st1 ! c)) = ?n"
        using cap c by blast
      have n: "num_items (work_items st2 ! c) = ?n"
        and l: "length (item_list (work_items st2 ! c)) = ?n"
        using f ul capc by simp_all
      show "take (num_items (work_items st2 ! c)) (item_list (work_items st2 ! c)) =
                       map (\<lambda>(d, s). \<lparr>item_to = page_address d + PAGE_SIZE env * folio_nr_pages s div T * c,
                             item_from = page_address s + PAGE_SIZE env * folio_nr_pages s div T * c,
                             chunk_size = PAGE_SIZE env * folio_nr_pages s div T\<rparr>) (zip dsts srcs)"
      proof (rule nth_equalityI)
        show "length (take (num_items (work_items st2 ! c)) (item_list (work_items st2 ! c))) =
              length (map (\<lambda>(d, s). \<lparr>item_to = page_address d + PAGE_SIZE env * folio_nr_pages s div T * c,
                             item_from = page_address s + PAGE_SIZE env * folio_nr_pages s div T * c,
                             chunk_size = PAGE_SIZE env * folio_nr_pages s div T\<rparr>) (zip dsts srcs))"
          using n l srcs dsts by simp
      next
        fix j
        assume "j < length (take (num_items (work_items st2 ! c)) (item_list (work_items st2 ! c)))"
        then have j: "j < ?n" using n l by simp
        then have "j < length srcs" "j < length (item_list (work_items ?st1 ! c))" "j < length dsts"
          using srcs dsts capc by simp_all
        then show "take (num_items (work_items st2 ! c)) (item_list (work_items st2 ! c)) ! j =
              map (\<lambda>(d, s). \<lparr>item_to = page_address d + PAGE_SIZE env * folio_nr_pages s div T * c,
                             item_from = page_address s + PAGE_SIZE env * folio_nr_pages s div T * c,
                             chunk_size = PAGE_SIZE env * folio_nr_pages s div T\<rparr>) (zip dsts srcs) ! j"
          using f j n by simp
      qed
    qed
    show ?thesis
      using True pp st2(1,2,4) facts its by auto
  next
    case False
    have "u32 N = ?n" using N by (simp add: u32_nat)
    moreover have "?n < 2 ^ 31" using N by (simp add: nat_less_iff)
    ultimately have M: "?M = int (?n div T + (if ?n mod T \<noteq> 0 then 1 else 0))"
      using False pp max_items_folios [OF T(2), of ?n] by (simp add: max_items_per_thread_def)
    have cap: "\<forall>c<T. ?n div T + (if ?n mod T \<noteq> 0 then 1 else 0)
                  \<le> length (item_list (work_items ?st1 ! c))"
      unfolding M by (simp add: zeroed_work_def del: of_nat_add)
    have TN: "T \<le> ?n" using False by simp
    have cnt: "\<And>c. ?n div T + (if c < ?n mod T then 1 else 0)
                  \<le> ?n div T + (if ?n mod T \<noteq> 0 then 1 else 0)"
      by auto
    from dispatch_folios_ok [OF len1 T(2) N TN srcs dsts cap, of env]
    obtain st2 where st2: "dispatch_folios env T N dsts srcs ?st1 = Inr st2"
        "length (work_items st2) = T"
        "\<forall>c<T. num_items (work_items st2 ! c) =
                   ?n div T + (if c < ?n mod T then 1 else 0)
                 \<and> length (item_list (work_items st2 ! c)) =
                     length (item_list (work_items ?st1 ! c))
                 \<and> ret (work_items st2 ! c) =
                     copy_items env (take (num_items (work_items st2 ! c))
                                       (item_list (work_items st2 ! c))) 0"
        "trace st2 = trace ?st1 @
                concat (map (\<lambda>c. Queue_work c # copy_events env (work_items st2 ! c)) [0..<T])"
        "concat (map (\<lambda>c. take (num_items (work_items st2 ! c))
                                          (item_list (work_items st2 ! c))) [0..<T]) =
                       map (\<lambda>(d, s). \<lparr>item_to = page_address d, item_from = page_address s,
                              chunk_size = PAGE_SIZE env * folio_nr_pages s\<rparr>) (zip dsts srcs)"
      by blast
    have "\<forall>c<T. num_items (work_items st2 ! c) \<le> length (item_list (work_items st2 ! c))"
    proof (intro allI impI)
      fix c assume c: "c < T"
      have "num_items (work_items st2 ! c) \<le> ?n div T + (if ?n mod T \<noteq> 0 then 1 else 0)"
        using st2(3) c cnt [of c] by simp
      also have "\<dots> \<le> length (item_list (work_items ?st1 ! c))"
        using cap c by blast
      finally show "num_items (work_items st2 ! c) \<le> length (item_list (work_items st2 ! c))"
        using st2(3) c by simp
    qed
    then show ?thesis
      using False pp st2 by auto
  qed
  then obtain st2 where st2: "(if part_of_each_page N T
               then dispatch_chunks env T ?M dsts srcs ?st1
               else dispatch_folios env T N dsts srcs ?st1) = Inr st2"
      "length (work_items st2) = T"
      "\<forall>c<T. num_items (work_items st2 ! c) =
                   (if ?n < T then ?n else ?n div T + (if c < ?n mod T then 1 else 0))
                 \<and> num_items (work_items st2 ! c) \<le> length (item_list (work_items st2 ! c))
                 \<and> ret (work_items st2 ! c) =
                     copy_items env (take (num_items (work_items st2 ! c))
                                       (item_list (work_items st2 ! c))) 0"
      "trace st2 = trace ?st1 @
                concat (map (\<lambda>c. Queue_work c # copy_events env (work_items st2 ! c)) [0..<T])"
      "(if nat N < T
                then \<forall>c<T. take (num_items (work_items st2 ! c)) (item_list (work_items st2 ! c)) =
                       map (\<lambda>(d, s). \<lparr>item_to = page_address d + PAGE_SIZE env * folio_nr_pages s div T * c,
                             item_from = page_address s + PAGE_SIZE env * folio_nr_pages s div T * c,
                             chunk_size = PAGE_SIZE env * folio_nr_pages s div T\<rparr>) (zip dsts srcs)
                else concat (map (\<lambda>c. take (num_items (work_items st2 ! c))
                                          (item_list (work_items st2 ! c))) [0..<T]) =
                       map (\<lambda>(d, s). \<lparr>item_to = page_address d, item_from = page_address s,
                              chunk_size = PAGE_SIZE env * folio_nr_pages s\<rparr>) (zip dsts srcs))"
    by blast
  let ?st3 = "free_work_items T st2"
  have st3: "work_items ?st3 = work_items st2"
    "trace ?st3 = trace st2 @ map Kfree [0..<T]"
    using st2(2) by (simp_all add: free_work_items_eq)
  have "copy_page_lists_mt env limit_mt_num dsts srcs N = Inr (wait_all T st2 0, ?st3)"
    unfolding copy_page_lists_mt_def Let_def clamp
    using hm T(2) alloc st2(1) by simp
  then have "copy_page_lists_mt env limit_mt_num dsts srcs N =
       Inr (if \<exists>c<T. ret (work_items ?st3 ! c) \<noteq> 0 then - EAGAIN else 0, ?st3)"
    by (simp add: wait_all_eq st3(1))
  moreover have "length (work_items ?st3) = T"
    using st2(2) st3(1) by simp
  moreover have "\<forall>c<T. num_items (work_items ?st3 ! c) =
                   (if ?n < T then ?n else ?n div T + (if c < ?n mod T then 1 else 0))
                 \<and> num_items (work_items ?st3 ! c) \<le> length (item_list (work_items ?st3 ! c))
                 \<and> ret (work_items ?st3 ! c) =
                     copy_items env (take (num_items (work_items ?st3 ! c))
                                       (item_list (work_items ?st3 ! c))) 0"
    unfolding st3(1) by (rule st2(3))
  moreover have "trace ?st3 = map Kzalloc [0..<T] @
                concat (map (\<lambda>c. Queue_work c # copy_events env (work_items ?st3 ! c)) [0..<T]) @
                map Kfree [0..<T]"
    using st2(4) st3 by simp
  moreover have "(if nat N < T
                then \<forall>c<T. take (num_items (work_items ?st3 ! c)) (item_list (work_items ?st3 ! c)) =
                       map (\<lambda>(d, s). \<lparr>item_to = page_address d + PAGE_SIZE env * folio_nr_pages s div T * c,
                             item_from = page_address s + PAGE_SIZE env * folio_nr_pages s div T * c,
                             chunk_size = PAGE_SIZE env * folio_nr_pages s div T\<rparr>) (zip dsts srcs)
                else concat (map (\<lambda>c. take (num_items (work_items ?st3 ! c))
                                          (item_list (work_items ?st3 ! c))) [0..<T]) =
                       map (\<lambda>(d, s). \<lparr>item_to = page_address d, item_from = page_address s,
                              chunk_size = PAGE_SIZE env * folio_nr_pages s\<rparr>) (zip dsts srcs))"
    unfolding st3(1) by (rule st2(5))
  ultimately show ?thesis
    by blast
qed

lemma copy_events_all_ok:
  "copy_items env (take (num_items w) (item_list w)) 0 = 0 \<longleftrightarrow>
     (\<forall>it r. Copy_mc it r \<in> set (copy_events env w) \<longrightarrow> r = 0)"
  by (auto simp: copy_items_eq_0 copy_events_def)

lemma length_copy_events:
  "num_items w \<le> length (item_list w) \<Longrightarrow> length (copy_events env w) = num_items w"
  by (simp add: copy_events_def)

lemma limit_clamped:
  "copy_page_lists_mt env limit_mt_num dsts srcs N =
   copy_page_lists_mt env (min limit_mt_num 64) dsts srcs N"
  by (simp add: copy_page_lists_mt_def MAX_NUM_COPY_THREADS_def min_def)

text \<open>
  C1. \<open>T\<close> is the worker limit read at the start of the dispatch: a configured limit,
  between 1 and 64 (\<open>mt_threads_set_keeps_range\<close>); \<open>N\<close> is the batch size, the length
  of both lists. The test the function branches on holds exactly when \<open>N < T\<close>. The call
  returns; in its first branch every worker gets \<open>N\<close> items, one part of each pair, and
  in its second branch worker \<open>cpu\<close> gets \<open>N div T\<close> pairs and one more exactly when
  \<open>cpu < N mod T\<close>. Every worker is queued once and calls the copy routine once for each
  of its items. In the first branch the list of worker \<open>c\<close> is, pair by pair in the order
  of the batch, the part of \<open>PAGE_SIZE * folio_nr_pages src div T\<close> bytes that starts
  \<open>c\<close> such parts into the pair. In the second branch the lists of the workers, one
  after the other in the order of the workers, are the pairs of the batch, whole and in
  their order; the counts add up to \<open>N\<close> and no two differ by more than 1.
\<close>

theorem policy_and_shares:
  assumes "\<not> CONFIG_HIGHMEM env" and "0 < T" and "T \<le> 64"
    and "\<forall>c<T. kzalloc_ok env c"
    and "0 \<le> N" and "N < 2 ^ 31"
    and "length srcs = nat N" and "length dsts = nat N"
  shows "(part_of_each_page N T \<longleftrightarrow> N < int T)
     \<and> (\<exists>err st. copy_page_lists_mt env T dsts srcs N = Inr (err, st)
          \<and> length (work_items st) = T
          \<and> (\<forall>c<T. num_items (work_items st ! c) =
                  (if N < int T then nat N
                   else nat N div T + (if c < nat N mod T then 1 else 0))
                \<and> length (copy_events env (work_items st ! c)) = num_items (work_items st ! c))
          \<and> trace st = map Kzalloc [0..<T] @
               concat (map (\<lambda>c. Queue_work c # copy_events env (work_items st ! c)) [0..<T]) @
               map Kfree [0..<T]
          \<and> (N < int T \<longrightarrow>
                (\<forall>c<T. take (num_items (work_items st ! c)) (item_list (work_items st ! c)) =
                       map (\<lambda>(d, s). \<lparr>item_to = page_address d + PAGE_SIZE env * folio_nr_pages s div T * c,
                             item_from = page_address s + PAGE_SIZE env * folio_nr_pages s div T * c,
                             chunk_size = PAGE_SIZE env * folio_nr_pages s div T\<rparr>) (zip dsts srcs)))
          \<and> (int T \<le> N \<longrightarrow>
                concat (map (\<lambda>c. take (num_items (work_items st ! c))
                                          (item_list (work_items st ! c))) [0..<T]) =
                       map (\<lambda>(d, s). \<lparr>item_to = page_address d, item_from = page_address s,
                              chunk_size = PAGE_SIZE env * folio_nr_pages s\<rparr>) (zip dsts srcs))
          \<and> (int T \<le> N \<longrightarrow>
                (\<Sum>c = 0..<T. num_items (work_items st ! c)) = nat N
                \<and> (\<forall>c<T. \<forall>d<T. num_items (work_items st ! c)
                                    \<le> num_items (work_items st ! d) + 1)))"
proof -
  have T: "T = min T 64" using assms(3) by simp
  have pp: "part_of_each_page N T \<longleftrightarrow> N < int T"
    using assms(5,6) by (auto simp: part_of_each_page_def u32_nat)
  have lt: "nat N < T \<longleftrightarrow> N < int T"
    using assms(5) by auto
  have dl: "length srcs \<le> length dsts" using assms(7,8) by simp
  from copy_page_lists_mt_dispatched [OF assms(1) T assms(2,4,5,6,7) dl]
  obtain st where st: "copy_page_lists_mt env T dsts srcs N =
              Inr (if \<exists>c<T. ret (work_items st ! c) \<noteq> 0 then - EAGAIN else 0, st)"
     "length (work_items st) = T"
     "\<forall>c<T. num_items (work_items st ! c) =
                   (if nat N < T then nat N
                    else nat N div T + (if c < nat N mod T then 1 else 0))
                 \<and> num_items (work_items st ! c) \<le> length (item_list (work_items st ! c))
                 \<and> ret (work_items st ! c) =
                     copy_items env (take (num_items (work_items st ! c))
                                       (item_list (work_items st ! c))) 0"
     "trace st = map Kzalloc [0..<T] @
                concat (map (\<lambda>c. Queue_work c # copy_events env (work_items st ! c)) [0..<T]) @
                map Kfree [0..<T]"
     "if nat N < T
      then (\<forall>c<T. take (num_items (work_items st ! c)) (item_list (work_items st ! c)) =
                       map (\<lambda>(d, s). \<lparr>item_to = page_address d + PAGE_SIZE env * folio_nr_pages s div T * c,
                             item_from = page_address s + PAGE_SIZE env * folio_nr_pages s div T * c,
                             chunk_size = PAGE_SIZE env * folio_nr_pages s div T\<rparr>) (zip dsts srcs))
      else concat (map (\<lambda>c. take (num_items (work_items st ! c))
                                          (item_list (work_items st ! c))) [0..<T]) =
                       map (\<lambda>(d, s). \<lparr>item_to = page_address d, item_from = page_address s,
                              chunk_size = PAGE_SIZE env * folio_nr_pages s\<rparr>) (zip dsts srcs)"
    by blast
  have chunks: "N < int T \<longrightarrow>
                (\<forall>c<T. take (num_items (work_items st ! c)) (item_list (work_items st ! c)) =
                       map (\<lambda>(d, s). \<lparr>item_to = page_address d + PAGE_SIZE env * folio_nr_pages s div T * c,
                             item_from = page_address s + PAGE_SIZE env * folio_nr_pages s div T * c,
                             chunk_size = PAGE_SIZE env * folio_nr_pages s div T\<rparr>) (zip dsts srcs))"
  proof
    assume "N < int T"
    then have h: "nat N < T" using lt by blast
    show "(\<forall>c<T. take (num_items (work_items st ! c)) (item_list (work_items st ! c)) =
                       map (\<lambda>(d, s). \<lparr>item_to = page_address d + PAGE_SIZE env * folio_nr_pages s div T * c,
                             item_from = page_address s + PAGE_SIZE env * folio_nr_pages s div T * c,
                             chunk_size = PAGE_SIZE env * folio_nr_pages s div T\<rparr>) (zip dsts srcs))"
      using st(5) unfolding if_P [OF h] .
  qed
  have wholes: "int T \<le> N \<longrightarrow>
                concat (map (\<lambda>c. take (num_items (work_items st ! c))
                                          (item_list (work_items st ! c))) [0..<T]) =
                       map (\<lambda>(d, s). \<lparr>item_to = page_address d, item_from = page_address s,
                              chunk_size = PAGE_SIZE env * folio_nr_pages s\<rparr>) (zip dsts srcs)"
  proof
    assume "int T \<le> N"
    then have h: "\<not> nat N < T" using lt by simp
    show "concat (map (\<lambda>c. take (num_items (work_items st ! c))
                                          (item_list (work_items st ! c))) [0..<T]) =
                       map (\<lambda>(d, s). \<lparr>item_to = page_address d, item_from = page_address s,
                              chunk_size = PAGE_SIZE env * folio_nr_pages s\<rparr>) (zip dsts srcs)"
      using st(5) unfolding if_not_P [OF h] .
  qed
  have nums: "\<forall>c<T. num_items (work_items st ! c) =
                  (if N < int T then nat N
                   else nat N div T + (if c < nat N mod T then 1 else 0))
                \<and> length (copy_events env (work_items st ! c)) = num_items (work_items st ! c)"
  proof (intro allI impI)
    fix c assume c: "c < T"
    note f = st(3) [rule_format, OF c]
    have "length (copy_events env (work_items st ! c)) = num_items (work_items st ! c)"
      using f by (intro length_copy_events) blast
    moreover have "num_items (work_items st ! c) =
                  (if N < int T then nat N
                   else nat N div T + (if c < nat N mod T then 1 else 0))"
      using f lt by presburger
    ultimately show "num_items (work_items st ! c) =
                  (if N < int T then nat N
                   else nat N div T + (if c < nat N mod T then 1 else 0))
                \<and> length (copy_events env (work_items st ! c)) = num_items (work_items st ! c)"
      by blast
  qed
  have shares: "int T \<le> N \<longrightarrow>
                (\<Sum>c = 0..<T. num_items (work_items st ! c)) = nat N
                \<and> (\<forall>c<T. \<forall>d<T. num_items (work_items st ! c)
                                    \<le> num_items (work_items st ! d) + 1)"
  proof
    assume TN: "int T \<le> N"
    then have nlt: "\<not> N < int T" by simp
    have "(\<Sum>c = 0..<T. num_items (work_items st ! c)) =
          (\<Sum>c = 0..<T. nat N div T + (if c < nat N mod T then 1 else 0))"
      by (rule sum.cong) (use nums nlt in simp_all)
    then have "(\<Sum>c = 0..<T. num_items (work_items st ! c)) = nat N"
      using sum_shares [OF assms(2), of "nat N"] by simp
    moreover have "\<forall>c<T. \<forall>d<T. num_items (work_items st ! c) \<le> num_items (work_items st ! d) + 1"
      using nums nlt by simp
    ultimately show "(\<Sum>c = 0..<T. num_items (work_items st ! c)) = nat N
                \<and> (\<forall>c<T. \<forall>d<T. num_items (work_items st ! c)
                                    \<le> num_items (work_items st ! d) + 1)"
      by blast
  qed
  show ?thesis
    using pp st(1,2,4) nums chunks wholes shares by blast
qed

theorem policy_and_shares_witness:
  "part_of_each_page 3 4 \<and> \<not> part_of_each_page 10 4
   \<and> (\<exists>st. copy_page_lists_mt env_ok 4
               (map small_folio [100, 101, 102]) (map small_folio [0, 1, 2]) 3 = Inr (0, st)
          \<and> map num_items (work_items st) = [3, 3, 3, 3]
          \<and> map (\<lambda>w. map chunk_size (item_list w)) (work_items st) =
              replicate 4 [1024, 1024, 1024])
   \<and> (\<exists>st. copy_page_lists_mt env_ok 4
               (map small_folio [100..<110]) (map small_folio [0..<10]) 10 = Inr (0, st)
          \<and> map num_items (work_items st) = [3, 3, 2, 2]
          \<and> map (\<lambda>w. map chunk_size (take (num_items w) (item_list w))) (work_items st) =
              [[4096, 4096, 4096], [4096, 4096, 4096], [4096, 4096], [4096, 4096]])"
proof -
  have h1: "\<not> CONFIG_HIGHMEM env_ok" and h4: "\<forall>c<4. kzalloc_ok env_ok c"
    by (simp_all add: env_ok_def)
  have h2: "(0::nat) < 4" and h3: "(4::nat) \<le> 64"
    by simp_all
  have a5: "(0::int) \<le> 3" and a6: "(3::int) < 2 ^ 31"
    and a7: "length (map small_folio [0, 1, 2]) = nat 3"
    and a8: "length (map small_folio [100, 101, 102]) = nat 3"
    by simp_all
  have b5: "(0::int) \<le> 10" and b6: "(10::int) < 2 ^ 31"
    and b7: "length (map small_folio [0..<10]) = nat 10"
    and b8: "length (map small_folio [100..<110]) = nat 10"
    by simp_all
  show ?thesis
    using policy_and_shares [OF h1 h2 h3 h4 a5 a6 a7 a8]
      policy_and_shares [OF h1 h2 h3 h4 b5 b6 b7 b8]
    by (simp add: mt_eval env_ok_def)
qed

text \<open>
  The aggregation of the workers' flags. For a dispatch that takes place (every
  descriptor allocated), the call returns after the wait loop, and what it returns is
  \<open>-EAGAIN\<close> or 0: \<open>-EAGAIN\<close> exactly when the \<open>ret\<close> flag of some worker is set, 0
  exactly when no flag is set, which is exactly when every call of the copy routine made
  for the batch reported success. In the first branch that is: the copy of each worker's
  part of each pair succeeded; in the second branch: the copy of each pair succeeded.
\<close>

lemma retry_aggregation:
  assumes "\<not> CONFIG_HIGHMEM env" and "0 < limit_mt_num"
    and "\<forall>c<min limit_mt_num 64. kzalloc_ok env c"
    and "0 \<le> N" and "N < 2 ^ 31"
    and "length srcs = nat N" and "length dsts = nat N"
  shows "\<exists>err st. copy_page_lists_mt env limit_mt_num dsts srcs N = Inr (err, st)
          \<and> (err = - EAGAIN \<or> err = 0)
          \<and> (err = - EAGAIN \<longleftrightarrow> (\<exists>c<min limit_mt_num 64. ret (work_items st ! c) \<noteq> 0))
          \<and> (err = 0 \<longleftrightarrow> (\<forall>c<min limit_mt_num 64. ret (work_items st ! c) = 0))
          \<and> (err = 0 \<longleftrightarrow> (\<forall>it r. Copy_mc it r \<in> set (trace st) \<longrightarrow> r = 0))
          \<and> (N < int (min limit_mt_num 64) \<longrightarrow>
                (err = 0 \<longleftrightarrow>
                   (\<forall>c<min limit_mt_num 64. \<forall>(d, s)\<in>set (zip dsts srcs).
                      copy_page_routine env
                        (page_address d + PAGE_SIZE env * folio_nr_pages s div min limit_mt_num 64 * c)
                        (page_address s + PAGE_SIZE env * folio_nr_pages s div min limit_mt_num 64 * c)
                        (PAGE_SIZE env * folio_nr_pages s div min limit_mt_num 64) = 0)))
          \<and> (int (min limit_mt_num 64) \<le> N \<longrightarrow>
                (err = 0 \<longleftrightarrow>
                   (\<forall>(d, s)\<in>set (zip dsts srcs).
                      copy_page_routine env (page_address d) (page_address s)
                        (PAGE_SIZE env * folio_nr_pages s) = 0)))"
proof -
  let ?T = "min limit_mt_num 64"
  let ?R = "\<lambda>it. copy_page_routine env (item_to it) (item_from it) (chunk_size it)"
  have T0: "0 < ?T" using assms(2) by simp
  have dl: "length srcs \<le> length dsts" using assms(6,7) by simp
  have lt: "nat N < ?T \<longleftrightarrow> N < int ?T"
    using assms(4) by auto
  from copy_page_lists_mt_dispatched [OF assms(1) refl T0 assms(3,4,5,6) dl]
  obtain st where st: "copy_page_lists_mt env limit_mt_num dsts srcs N =
              Inr (if \<exists>c<?T. ret (work_items st ! c) \<noteq> 0 then - EAGAIN else 0, st)"
     "\<forall>c<?T. num_items (work_items st ! c) =
                   (if nat N < ?T then nat N
                    else nat N div ?T + (if c < nat N mod ?T then 1 else 0))
                 \<and> num_items (work_items st ! c) \<le> length (item_list (work_items st ! c))
                 \<and> ret (work_items st ! c) =
                     copy_items env (take (num_items (work_items st ! c))
                                       (item_list (work_items st ! c))) 0"
     "trace st = map Kzalloc [0..<?T] @
                concat (map (\<lambda>c. Queue_work c # copy_events env (work_items st ! c)) [0..<?T]) @
                map Kfree [0..<?T]"
     "if nat N < ?T
      then \<forall>c<?T. take (num_items (work_items st ! c)) (item_list (work_items st ! c)) =
                       map (\<lambda>(d, s). \<lparr>item_to = page_address d + PAGE_SIZE env * folio_nr_pages s div ?T * c,
                             item_from = page_address s + PAGE_SIZE env * folio_nr_pages s div ?T * c,
                             chunk_size = PAGE_SIZE env * folio_nr_pages s div ?T\<rparr>) (zip dsts srcs)
      else concat (map (\<lambda>c. take (num_items (work_items st ! c))
                                          (item_list (work_items st ! c))) [0..<?T]) =
                       map (\<lambda>(d, s). \<lparr>item_to = page_address d, item_from = page_address s,
                              chunk_size = PAGE_SIZE env * folio_nr_pages s\<rparr>) (zip dsts srcs)"
    by blast
  let ?err = "if \<exists>c<?T. ret (work_items st ! c) \<noteq> 0 then - EAGAIN else (0::int)"
  let ?items = "\<lambda>c. take (num_items (work_items st ! c)) (item_list (work_items st ! c))"
  have ret_items: "\<And>c. c < ?T \<Longrightarrow> ret (work_items st ! c) = 0 \<longleftrightarrow> (\<forall>it\<in>set (?items c). ?R it = 0)"
  proof -
    fix c assume c: "c < ?T"
    note f = st(2) [rule_format, OF c]
    have "ret (work_items st ! c) = copy_items env (?items c) 0"
      using f by blast
    then show "ret (work_items st ! c) = 0 \<longleftrightarrow> (\<forall>it\<in>set (?items c). ?R it = 0)"
      by (simp add: copy_items_eq_0)
  qed
  have rets: "\<forall>c<?T. ret (work_items st ! c) = 0 \<longleftrightarrow>
      (\<forall>it r. Copy_mc it r \<in> set (copy_events env (work_items st ! c)) \<longrightarrow> r = 0)"
  proof (intro allI impI)
    fix c assume c: "c < ?T"
    note f = st(2) [rule_format, OF c]
    have "ret (work_items st ! c) = copy_items env (take (num_items (work_items st ! c))
                                       (item_list (work_items st ! c))) 0"
      using f by blast
    then show "ret (work_items st ! c) = 0 \<longleftrightarrow>
      (\<forall>it r. Copy_mc it r \<in> set (copy_events env (work_items st ! c)) \<longrightarrow> r = 0)"
      using copy_events_all_ok [of env "work_items st ! c"] by presburger
  qed
  have mem: "\<And>it r. Copy_mc it r \<in> set (trace st) \<longleftrightarrow>
      (\<exists>c<?T. Copy_mc it r \<in> set (copy_events env (work_items st ! c)))"
    unfolding st(3) by auto
  have tr: "(\<forall>c<?T. ret (work_items st ! c) = 0) \<longleftrightarrow>
        (\<forall>it r. Copy_mc it r \<in> set (trace st) \<longrightarrow> r = 0)"
    unfolding mem using rets by blast
  have err0: "?err = 0 \<longleftrightarrow> (\<forall>c<?T. ret (work_items st ! c) = 0)"
    by (auto simp: EAGAIN_def)
  have parts: "N < int ?T \<longrightarrow> (?err = 0 \<longleftrightarrow> (\<forall>c<?T. \<forall>(d, s)\<in>set (zip dsts srcs).
                      copy_page_routine env
                        (page_address d + PAGE_SIZE env * folio_nr_pages s div ?T * c)
                        (page_address s + PAGE_SIZE env * folio_nr_pages s div ?T * c)
                        (PAGE_SIZE env * folio_nr_pages s div ?T) = 0))"
  proof
    assume "N < int ?T"
    then have h: "nat N < ?T" using lt by blast
    have its: "\<forall>c<?T. ?items c = map (\<lambda>(d, s). \<lparr>item_to = page_address d + PAGE_SIZE env * folio_nr_pages s div ?T * c,
                             item_from = page_address s + PAGE_SIZE env * folio_nr_pages s div ?T * c,
                             chunk_size = PAGE_SIZE env * folio_nr_pages s div ?T\<rparr>) (zip dsts srcs)"
      using st(4) unfolding if_P [OF h] .
    have "(\<forall>c<?T. ret (work_items st ! c) = 0) \<longleftrightarrow> (\<forall>c<?T. \<forall>(d, s)\<in>set (zip dsts srcs).
                      copy_page_routine env
                        (page_address d + PAGE_SIZE env * folio_nr_pages s div ?T * c)
                        (page_address s + PAGE_SIZE env * folio_nr_pages s div ?T * c)
                        (PAGE_SIZE env * folio_nr_pages s div ?T) = 0)"
    proof (rule all_cong1, rule imp_cong [OF refl])
      fix c assume c: "c < ?T"
      have "ret (work_items st ! c) = 0 \<longleftrightarrow> (\<forall>it\<in>set (?items c). ?R it = 0)"
        by (rule ret_items [OF c])
      also have "\<dots> \<longleftrightarrow> (\<forall>it\<in>set (map (\<lambda>(d, s). \<lparr>item_to = page_address d + PAGE_SIZE env * folio_nr_pages s div ?T * c,
                             item_from = page_address s + PAGE_SIZE env * folio_nr_pages s div ?T * c,
                             chunk_size = PAGE_SIZE env * folio_nr_pages s div ?T\<rparr>) (zip dsts srcs)). ?R it = 0)"
        using its c by simp
      also have "\<dots> \<longleftrightarrow> (\<forall>(d, s)\<in>set (zip dsts srcs).
                      copy_page_routine env
                        (page_address d + PAGE_SIZE env * folio_nr_pages s div ?T * c)
                        (page_address s + PAGE_SIZE env * folio_nr_pages s div ?T * c)
                        (PAGE_SIZE env * folio_nr_pages s div ?T) = 0)"
        by (auto simp: case_prod_beta)
      finally show "ret (work_items st ! c) = 0 \<longleftrightarrow> (\<forall>(d, s)\<in>set (zip dsts srcs).
                      copy_page_routine env
                        (page_address d + PAGE_SIZE env * folio_nr_pages s div ?T * c)
                        (page_address s + PAGE_SIZE env * folio_nr_pages s div ?T * c)
                        (PAGE_SIZE env * folio_nr_pages s div ?T) = 0)" .
    qed
    then show "?err = 0 \<longleftrightarrow> (\<forall>c<?T. \<forall>(d, s)\<in>set (zip dsts srcs).
                      copy_page_routine env
                        (page_address d + PAGE_SIZE env * folio_nr_pages s div ?T * c)
                        (page_address s + PAGE_SIZE env * folio_nr_pages s div ?T * c)
                        (PAGE_SIZE env * folio_nr_pages s div ?T) = 0)"
      using err0 by blast
  qed
  have wholes: "int ?T \<le> N \<longrightarrow> (?err = 0 \<longleftrightarrow> (\<forall>(d, s)\<in>set (zip dsts srcs).
                      copy_page_routine env (page_address d) (page_address s)
                        (PAGE_SIZE env * folio_nr_pages s) = 0))"
  proof
    assume "int ?T \<le> N"
    then have h: "\<not> nat N < ?T" using lt by simp
    have its: "concat (map ?items [0..<?T]) = map (\<lambda>(d, s). \<lparr>item_to = page_address d, item_from = page_address s,
                              chunk_size = PAGE_SIZE env * folio_nr_pages s\<rparr>) (zip dsts srcs)"
      using st(4) unfolding if_not_P [OF h] .
    have "(\<forall>c<?T. ret (work_items st ! c) = 0) \<longleftrightarrow> (\<forall>c<?T. \<forall>it\<in>set (?items c). ?R it = 0)"
      using ret_items by blast
    also have "\<dots> \<longleftrightarrow> (\<forall>it\<in>set (concat (map ?items [0..<?T])). ?R it = 0)"
      by auto
    also have "\<dots> \<longleftrightarrow> (\<forall>it\<in>set (map (\<lambda>(d, s). \<lparr>item_to = page_address d, item_from = page_address s,
                              chunk_size = PAGE_SIZE env * folio_nr_pages s\<rparr>) (zip dsts srcs)). ?R it = 0)"
      unfolding its ..
    also have "\<dots> \<longleftrightarrow> (\<forall>(d, s)\<in>set (zip dsts srcs).
                      copy_page_routine env (page_address d) (page_address s)
                        (PAGE_SIZE env * folio_nr_pages s) = 0)"
      by (auto simp: case_prod_beta)
    finally show "?err = 0 \<longleftrightarrow> (\<forall>(d, s)\<in>set (zip dsts srcs).
                      copy_page_routine env (page_address d) (page_address s)
                        (PAGE_SIZE env * folio_nr_pages s) = 0)"
      using err0 by blast
  qed
  have "(?err = - EAGAIN \<or> ?err = 0)
          \<and> (?err = - EAGAIN \<longleftrightarrow> (\<exists>c<?T. ret (work_items st ! c) \<noteq> 0))
          \<and> (?err = 0 \<longleftrightarrow> (\<forall>c<?T. ret (work_items st ! c) = 0))
          \<and> (?err = 0 \<longleftrightarrow> (\<forall>it r. Copy_mc it r \<in> set (trace st) \<longrightarrow> r = 0))"
    using tr by (auto simp: EAGAIN_def)
  then show ?thesis
    using st(1) parts wholes by blast
qed

lemma retry_aggregation_witness:
  "(\<exists>st. copy_page_lists_mt (env_copy_fails_from 2) 2
            (map small_folio [100, 200, 300]) (map small_folio [1, 2, 3]) 3 = Inr (- 11, st)
       \<and> map ret (work_items st) = [1, 0])
   \<and> (\<exists>st. copy_page_lists_mt env_ok 2
            (map small_folio [100, 200, 300]) (map small_folio [1, 2, 3]) 3 = Inr (0, st)
       \<and> map ret (work_items st) = [0, 0])"
proof -
  have h1: "\<not> CONFIG_HIGHMEM (env_copy_fails_from 2)"
    and h3: "\<forall>c<min 2 64. kzalloc_ok (env_copy_fails_from 2) c"
    and k1: "\<not> CONFIG_HIGHMEM env_ok" and k3: "\<forall>c<min 2 64. kzalloc_ok env_ok c"
    by (simp_all add: env_copy_fails_from_def env_ok_def)
  have h2: "(0::nat) < 2" and h4: "(0::int) \<le> 3" and h5: "(3::int) < 2 ^ 31"
    and h6: "length (map small_folio [1, 2, 3]) = nat 3"
    and h7: "length (map small_folio [100, 200, 300]) = nat 3"
    by simp_all
  show ?thesis
    using retry_aggregation [OF h1 h2 h3 h4 h5 h6 h7] retry_aggregation [OF k1 h2 k3 h4 h5 h6 h7]
    by (simp add: mt_eval env_copy_fails_from_def env_ok_def)
qed

text \<open>
  C3. The flags are aggregated as the claim says (\<open>retry_aggregation\<close>), but a batch
  that is copied in part is reported as success. In the first branch each of the
  \<open>total_mt_num\<close> workers copies \<open>PAGE_SIZE * folio_nr_pages src div total_mt_num\<close> bytes
  of a pair, and the bytes that the division leaves over are copied by no worker; the
  \<open>VM_WARN_ON\<close> on that remainder only warns. With the worker limit 3, which
  \<open>mt_threads_set\<close> accepts, and a batch of one pair of 4096 bytes, the three workers
  copy the bytes 0 to 4094 of the pair, the last byte is not copied, no flag is set and
  the call returns 0.
\<close>

theorem partial_copy_reported_as_success:
  "mt_threads_set (parses_as 0 3) 4 ''3'' 1 = (1, 3)
   \<and> PAGE_SIZE env_ok * folio_nr_pages (small_folio 0) = 4096
   \<and> copy_page_lists_mt env_ok 3 [small_folio 8192] [small_folio 0] 1 =
       Inr (0,
         \<lparr>work_items =
            [\<lparr>ret = 0, num_items = 1,
              item_list = [\<lparr>item_to = 8192, item_from = 0, chunk_size = 1365\<rparr>]\<rparr>,
             \<lparr>ret = 0, num_items = 1,
              item_list = [\<lparr>item_to = 9557, item_from = 1365, chunk_size = 1365\<rparr>]\<rparr>,
             \<lparr>ret = 0, num_items = 1,
              item_list = [\<lparr>item_to = 10922, item_from = 2730, chunk_size = 1365\<rparr>]\<rparr>],
          trace =
            [Kzalloc 0, Kzalloc 1, Kzalloc 2,
             Queue_work 0, Copy_mc \<lparr>item_to = 8192, item_from = 0, chunk_size = 1365\<rparr> 0,
             Queue_work 1, Copy_mc \<lparr>item_to = 9557, item_from = 1365, chunk_size = 1365\<rparr> 0,
             Queue_work 2, Copy_mc \<lparr>item_to = 10922, item_from = 2730, chunk_size = 1365\<rparr> 0,
             Kfree 0, Kfree 1, Kfree 2]\<rparr>)"
  by (simp add: mt_eval env_ok_def mt_threads_set_def parses_as_def)

subsection \<open>The empty batch\<close>

lemma empty_batch_mt:
  assumes "\<not> CONFIG_HIGHMEM env" and "0 < limit_mt_num" and T: "T = min limit_mt_num 64"
  shows "copy_page_lists_mt env limit_mt_num [] [] 0 =
     (if \<forall>c<T. kzalloc_ok env c
      then Inr (0, \<lparr>work_items = replicate T \<lparr>ret = 0, num_items = 0, item_list = []\<rparr>,
                    trace = map Kzalloc [0..<T] @ map Queue_work [0..<T] @ map Kfree [0..<T]\<rparr>)
      else Inr (- ENOMEM,
                \<lparr>work_items = replicate (length (takeWhile (kzalloc_ok env) [0..<T]))
                                 \<lparr>ret = 0, num_items = 0, item_list = []\<rparr>,
                 trace = map Kzalloc [0..<length (takeWhile (kzalloc_ok env) [0..<T])] @
                         map Kfree [0..<length (takeWhile (kzalloc_ok env) [0..<T])]\<rparr>))"
proof -
  let ?z = "\<lparr>ret = 0, num_items = 0, item_list = []\<rparr>"
  have clamp: "(if limit_mt_num > MAX_NUM_COPY_THREADS then MAX_NUM_COPY_THREADS else limit_mt_num) = T"
    using T by (simp add: MAX_NUM_COPY_THREADS_def min_def)
  have T0: "0 < T" using assms(2) T by simp
  have pp: "part_of_each_page 0 T"
    using T0 by (simp add: part_of_each_page_def u32_def)
  have M: "max_items_per_thread 0 T = 0"
    using pp by (simp add: max_items_per_thread_def)
  have z: "zeroed_work 0 = ?z"
    by (simp add: zeroed_work_def)
  show ?thesis
  proof (cases "\<forall>c<T. kzalloc_ok env c")
    case True
    let ?st1 = "\<lparr>work_items = replicate T ?z, trace = map Kzalloc [0..<T]\<rparr>"
    have alloc: "alloc_work_items env 0 [0..<T] \<lparr>work_items = [], trace = []\<rparr> = (True, ?st1)"
      using alloc_all_ok [OF True, of 0 "\<lparr>work_items = [], trace = []\<rparr>"] by (simp add: z)
    have rep: "map (\<lambda>c. if c < T then ?z else replicate T ?z ! c) [0..<T] = replicate T ?z"
      by (rule nth_equalityI) simp_all
    have st2: "for_each_cpu T (\<lambda>cpu. set_num_items cpu (ulong 0)) ?st1 = ?st1"
      by (simp add: set_num_items_all ulong_def rep cong: if_cong)
    have w: "copy_page_work_queue_thread env ?z = ?z"
      by (simp add: copy_page_work_queue_thread_def)
    have ev: "copy_events env ?z = []"
      by (simp add: copy_events_def)
    have q: "concat (map (\<lambda>c. Queue_work c # copy_events env (work_items ?st1 ! c)) [0..<T])
           = map Queue_work [0..<T]"
    proof -
      have "map (\<lambda>c. Queue_work c # copy_events env (work_items ?st1 ! c)) [0..<T]
          = map (\<lambda>c. [Queue_work c]) [0..<T]"
        by (rule map_cong) (simp_all add: ev)
      then show ?thesis by (simp only: concat_map_singleton)
    qed
    have rep2: "map (\<lambda>c. if c < T then copy_page_work_queue_thread env (work_items ?st1 ! c)
                          else work_items ?st1 ! c) [0..<length (work_items ?st1)] = replicate T ?z"
      by (rule nth_equalityI) (simp_all add: w)
    have len: "T \<le> length (work_items ?st1)"
      by simp
    have st3: "for_each_cpu T (queue_work env) ?st1 =
        \<lparr>work_items = replicate T ?z, trace = map Kzalloc [0..<T] @ map Queue_work [0..<T]\<rparr>"
      using queue_work_all [OF len, of env] unfolding rep2 q by simp
    have disp: "dispatch_chunks env T 0 [] [] ?st1 =
        Inr \<lparr>work_items = replicate T ?z, trace = map Kzalloc [0..<T] @ map Queue_work [0..<T]\<rparr>"
      by (simp add: dispatch_chunks_def st2 st3)
    have "copy_page_lists_mt env limit_mt_num [] [] 0 =
        Inr (0, \<lparr>work_items = replicate T ?z,
                  trace = map Kzalloc [0..<T] @ map Queue_work [0..<T] @ map Kfree [0..<T]\<rparr>)"
      unfolding copy_page_lists_mt_def Let_def clamp
      using assms(1) pp M alloc disp
      by (simp add: wait_all_eq free_work_items_eq cong: conj_cong)
    then show ?thesis using True by simp
  next
    case False
    define k where "k = length (takeWhile (kzalloc_ok env) [0..<T])"
    have la: "\<not> list_all (kzalloc_ok env) [0..<T]"
      using False by (auto simp: list_all_iff)
    have tw: "takeWhile (kzalloc_ok env) [0..<T] = [0..<k]"
      unfolding k_def by (rule takeWhile_upt)
    have le: "k \<le> T"
      unfolding k_def using length_takeWhile_le [of "kzalloc_ok env" "[0..<T]"] by simp
    have "copy_page_lists_mt env limit_mt_num [] [] 0 =
        Inr (- ENOMEM, \<lparr>work_items = replicate k ?z,
                        trace = map Kzalloc [0..<k] @ map Kfree [0..<k]\<rparr>)"
      unfolding copy_page_lists_mt_def Let_def clamp
      using assms(1) pp M la le
      by (simp add: alloc_work_items_eq tw free_work_items_eq z min_def)
    then show ?thesis unfolding k_def by (simp only: False if_False)
  qed
qed

section \<open>Properties of the DMA engine\<close>

subsection \<open>One pair\<close>




lemma process_counts:
  "active_transfers (fst (snd (process_folio_dma_transfer env cw src dst))) =
     active_transfers cw + (if async_path_fails env src dst then 0 else 1)
   \<and> done_c (fst (snd (process_folio_dma_transfer env cw src dst))) = done_c cw"
  by (simp add: process_folio_dma_transfer_def async_path_fails_def Let_def)

subsection \<open>The submission loop\<close>


lemma submit_folios_counts:
  assumes "length srcs \<le> length dsts"
    and "length (chan_works st) = n" and "idx < n"
  shows "\<exists>st'. submit_folios env n dsts srcs idx st = Inr st'
     \<and> length (chan_works st') = n
     \<and> (\<forall>k<n. done_c (chan_works st' ! k) = done_c (chan_works st ! k)
           \<and> active_transfers (chan_works st' ! k) = active_transfers (chan_works st ! k) +
               int (length (filter (\<lambda>i. (idx + i) mod n = k \<and>
                                         \<not> async_path_fails env (srcs ! i) (dsts ! i))
                              [0..<length srcs])))"
  using assms
proof (induction srcs arbitrary: dsts idx st)
  case Nil
  then show ?case by simp
next
  case (Cons src srcs)
  obtain dst ds where dsts: "dsts = dst # ds"
    using Cons.prems(1) by (cases dsts) auto
  obtain rc cw evs where p: "process_folio_dma_transfer env (chan_works st ! idx) src dst = (rc, cw, evs)"
    by (cases "process_folio_dma_transfer env (chan_works st ! idx) src dst") auto
  have cw: "active_transfers cw = active_transfers (chan_works st ! idx) +
              (if async_path_fails env src dst then 0 else 1)"
      "done_c cw = done_c (chan_works st ! idx)"
    using process_counts [of env "chan_works st ! idx" src dst] p by simp_all
  let ?st1 = "st\<lparr>chan_works := (chan_works st)[idx := cw], dma_trace := dma_trace st @ evs\<rparr>"
  let ?st2 = "if rc \<noteq> 0
              then ?st1\<lparr>dma_trace := dma_trace ?st1 @ [Folio_copy dst src], failed := failed ?st1 + 1\<rparr>
              else ?st1"
  let ?idx' = "(idx + 1) mod n"
  have cws2: "chan_works ?st2 = (chan_works st)[idx := cw]" by simp
  have a1: "length srcs \<le> length ds" using Cons.prems(1) dsts by simp
  have a2: "length (chan_works ?st2) = n" using Cons.prems(2) by simp
  have a3: "?idx' < n" using Cons.prems(3) by simp
  from Cons.IH [OF a1 a2 a3]
  obtain st' where st': "submit_folios env n ds srcs ?idx' ?st2 = Inr st'"
     "length (chan_works st') = n"
     "\<forall>k<n. done_c (chan_works st' ! k) = done_c (chan_works ?st2 ! k)
           \<and> active_transfers (chan_works st' ! k) = active_transfers (chan_works ?st2 ! k) +
               int (length (filter (\<lambda>i. (?idx' + i) mod n = k \<and>
                                         \<not> async_path_fails env (srcs ! i) (ds ! i))
                              [0..<length srcs]))"
    by blast
  have run: "submit_folios env n dsts (src # srcs) idx st = Inr st'"
    using st'(1) by (simp add: dsts p Let_def)
  have upt: "[0..<length (src # srcs)] = 0 # map Suc [0..<length srcs]"
    by (simp add: upt_conv_Cons map_Suc_upt del: upt_Suc)
  have shift: "\<And>i. (Suc idx mod n + i) mod n = Suc (idx + i) mod n"
    by (metis add_Suc mod_add_left_eq)
  have cnt: "\<And>k. length (filter (\<lambda>i. (idx + i) mod n = k \<and>
                        \<not> async_path_fails env ((src # srcs) ! i) (dsts ! i))
                      [0..<length (src # srcs)])
        = (if idx = k \<and> \<not> async_path_fails env src dst then 1 else 0) +
          length (filter (\<lambda>i. (?idx' + i) mod n = k \<and>
                        \<not> async_path_fails env (srcs ! i) (ds ! i)) [0..<length srcs])"
    unfolding upt dsts using Cons.prems(3)
    by (simp add: filter_map comp_def shift del: upt_Suc)
  have "\<forall>k<n. done_c (chan_works st' ! k) = done_c (chan_works st ! k)
           \<and> active_transfers (chan_works st' ! k) = active_transfers (chan_works st ! k) +
               int (length (filter (\<lambda>i. (idx + i) mod n = k \<and>
                                         \<not> async_path_fails env ((src # srcs) ! i) (dsts ! i))
                              [0..<length (src # srcs)]))"
  proof (intro allI impI)
    fix k assume k: "k < n"
    note f = st'(3) [rule_format, OF k]
    show "done_c (chan_works st' ! k) = done_c (chan_works st ! k)
           \<and> active_transfers (chan_works st' ! k) = active_transfers (chan_works st ! k) +
               int (length (filter (\<lambda>i. (idx + i) mod n = k \<and>
                                         \<not> async_path_fails env ((src # srcs) ! i) (dsts ! i))
                              [0..<length (src # srcs)]))"
    proof (cases "k = idx")
      case True
      have "chan_works ?st2 ! k = cw"
        unfolding cws2 using True Cons.prems(2,3) by simp
      then show ?thesis
        using f cw True unfolding cnt by simp
    next
      case False
      have "chan_works ?st2 ! k = chan_works st ! k"
        unfolding cws2 using False by simp
      then show ?thesis
        using f False unfolding cnt by auto
    qed
  qed
  then show ?case
    using run st'(2) by blast
qed

subsection \<open>Completion and the waits\<close>

lemma callbacks_run:
  "active_transfers cw = int m \<Longrightarrow>
   (folios_dma_completion_callback ^^ m) cw =
     (if m = 0 then cw else cw\<lparr>active_transfers := 0, done_c := done_c cw + 1\<rparr>)"
proof (induction m arbitrary: cw)
  case 0
  then show ?case by simp
next
  case (Suc m)
  let ?cw1 = "folios_dma_completion_callback cw"
  have cw1: "?cw1 = cw\<lparr>active_transfers := int m,
                        done_c := (if m = 0 then done_c cw + 1 else done_c cw)\<rparr>"
    using Suc.prems by (simp add: folios_dma_completion_callback_def Let_def)
  have "active_transfers ?cw1 = int m"
    by (simp add: cw1)
  from Suc.IH [OF this]
  have "(folios_dma_completion_callback ^^ m) ?cw1 =
     (if m = 0 then ?cw1 else ?cw1\<lparr>active_transfers := 0, done_c := done_c ?cw1 + 1\<rparr>)" .
  then show ?case
    by (simp add: funpow_swap1 cw1)
qed

lemma hardware_completes_eq:
  "0 \<le> active_transfers cw \<Longrightarrow>
   hardware_completes cw =
     (if active_transfers cw = 0 then cw
      else cw\<lparr>active_transfers := 0, done_c := done_c cw + 1\<rparr>)"
  using callbacks_run [of cw "nat (active_transfers cw)"]
  by (simp add: hardware_completes_def)

lemma wait_channels_Some_iff:
  "(\<exists>cws'. wait_channels cws = Some cws') \<longleftrightarrow> (\<forall>cw\<in>set cws. 0 < done_c cw)"
  by (induction cws) (auto simp: wait_for_completion_def split: option.splits)

subsection \<open>The whole transfer\<close>

lemma folios_copy_dma_parallel_returns_0:
  "folios_copy_dma_parallel env dsts srcs cnt tc = Inr (Some r, st) \<Longrightarrow> r = 0"
  by (auto simp: folios_copy_dma_parallel_def Let_def split: if_splits sum.splits option.splits)

lemma filter_copy_other [simp]:
  "filter is_folio_copy (map Request_channel xs) = []"
  "filter is_folio_copy (map Issue_pending xs) = []"
  "filter is_folio_copy (map Release_channel xs) = []"
  "filter is_tx_submit (map Request_channel xs) = []"
  "filter is_tx_submit (map Issue_pending xs) = []"
  "filter is_tx_submit (map Release_channel xs) = []"
  by (induction xs) simp_all

lemma empty_batch_dma:
  "folios_copy_dma_parallel env [] [] 0 tc =
     Inr (Some 0,
          \<lparr>chan_works = [], failed = 0,
           dma_trace = [Pr_err (if tc < 0 \<or> \<not> kmalloc_channels_ok env
                                then No_memory_for_channels else No_dma_channels)]\<rparr>)"
  by (auto simp: folios_copy_dma_parallel_def folios_copy_def Let_def min_def)

text \<open>The equations that evaluate a run of the transfer on concrete lists.\<close>

lemmas dma_eval = folios_copy_dma_parallel_def Let_def dma_env_submit_fails_from_def
  dma_env_src_map_fails_from_def dma_env_ok_def no_error_def process_folio_dma_transfer_def
  small_folio_def hardware_completes_def wait_for_completion_def
  folios_dma_completion_callback_def folios_copy_def async_path_fails_def
  ENOMEM_def EBUSY_def EINVAL_def upt_conv_Cons

text \<open>
  When the set-up succeeds, the call returns, with 0, exactly when every acquired
  channel got at least one descriptor submitted; a channel whose pairs all fell back
  has nothing in flight, its completion is never completed, and the wait for it does
  not end.
\<close>

lemma dma_returns_iff:
  assumes "kmalloc_channels_ok env" and "kmalloc_works_ok env"
    and "0 < min tc cnt" and "0 < channels_available env"
    and "length dsts = length srcs"
    and n: "n = min (nat (min tc cnt)) (channels_available env)"
  shows "\<exists>st. folios_copy_dma_parallel env dsts srcs cnt tc =
     Inr (if \<forall>k<n. \<exists>i<length srcs. i mod n = k \<and> \<not> async_path_fails env (srcs ! i) (dsts ! i)
          then Some 0 else None, st)"
proof -
  let ?req = "map Request_channel [0..<n] @
              (if n < nat (min tc cnt) then [Pr_err (Could_only_allocate n)] else [])"
  let ?st1 = "\<lparr>chan_works = map (\<lambda>i. \<lparr>chan = i, done_c = 0, active_transfers = 0\<rparr>) [0..<n],
              failed = 0, dma_trace = ?req\<rparr>"
  let ?P = "\<lambda>k i. i mod n = k \<and> \<not> async_path_fails env (srcs ! i) (dsts ! i)"
  have n0: "0 < n" using assms(3,4) n by simp
  have a1: "length srcs \<le> length dsts" using assms(5) by simp
  have a2: "length (chan_works ?st1) = n" by simp
  from submit_folios_counts [OF a1 a2 n0, of env]
  obtain st2 where st2: "submit_folios env n dsts srcs 0 ?st1 = Inr st2"
     "length (chan_works st2) = n"
     "\<forall>k<n. done_c (chan_works st2 ! k) = done_c (chan_works ?st1 ! k)
           \<and> active_transfers (chan_works st2 ! k) = active_transfers (chan_works ?st1 ! k) +
               int (length (filter (\<lambda>i. (0 + i) mod n = k \<and>
                                         \<not> async_path_fails env (srcs ! i) (dsts ! i))
                              [0..<length srcs]))"
    by blast
  have cw2: "\<And>k. k < n \<Longrightarrow> done_c (chan_works st2 ! k) = 0 \<and>
       active_transfers (chan_works st2 ! k) = int (length (filter (?P k) [0..<length srcs]))"
    using st2(3) by simp
  have hw: "\<And>k. k < n \<Longrightarrow> 0 < done_c (hardware_completes (chan_works st2 ! k)) \<longleftrightarrow>
       (\<exists>i<length srcs. ?P k i)"
  proof -
    fix k assume k: "k < n"
    have nonneg: "0 \<le> active_transfers (chan_works st2 ! k)"
      using cw2 [OF k] by simp
    have "0 < done_c (hardware_completes (chan_works st2 ! k)) \<longleftrightarrow>
          filter (?P k) [0..<length srcs] \<noteq> []"
      using cw2 [OF k] by (simp add: hardware_completes_eq [OF nonneg])
    also have "\<dots> \<longleftrightarrow> (\<exists>i<length srcs. ?P k i)"
      by (auto simp: filter_empty_conv)
    finally show "0 < done_c (hardware_completes (chan_works st2 ! k)) \<longleftrightarrow>
       (\<exists>i<length srcs. ?P k i)" .
  qed
  let ?st3 = "st2\<lparr>chan_works := map hardware_completes (chan_works st2),
                   dma_trace := dma_trace st2 @ map Issue_pending [0..<n]\<rparr>"
  have "(\<exists>cws'. wait_channels (chan_works ?st3) = Some cws') \<longleftrightarrow>
        (\<forall>k<n. 0 < done_c (hardware_completes (chan_works st2 ! k)))"
    unfolding wait_channels_Some_iff using st2(2)
    by (simp add: all_set_conv_all_nth)
  then have w: "(\<exists>cws'. wait_channels (chan_works ?st3) = Some cws') \<longleftrightarrow>
        (\<forall>k<n. \<exists>i<length srcs. ?P k i)"
    using hw by simp
  have pre: "\<not> (min tc cnt < 0 \<or> \<not> kmalloc_channels_ok env)"
    using assms(1,3) by auto
  show ?thesis
  proof (cases "wait_channels (chan_works ?st3)")
    case None
    have run: "folios_copy_dma_parallel env dsts srcs cnt tc = Inr (None, ?st3)"
      unfolding folios_copy_dma_parallel_def Let_def n [symmetric]
      using pre n0 assms(2) st2(1) None by simp
    have c: "\<not> (\<forall>k<n. \<exists>i<length srcs. ?P k i)"
      using w None by simp
    show ?thesis
      by (rule exI [of _ ?st3]) (simp only: if_not_P [OF c] run)
  next
    case (Some cws)
    let ?st4 = "?st3\<lparr>chan_works := cws,
                      dma_trace := dma_trace ?st3 @
                        (if failed ?st3 \<noteq> 0 then [Pr_err (Processed_fallback (failed ?st3))] else []) @
                        map Release_channel [0..<n]\<rparr>"
    have run: "folios_copy_dma_parallel env dsts srcs cnt tc = Inr (Some 0, ?st4)"
      unfolding folios_copy_dma_parallel_def Let_def n [symmetric]
      using pre n0 assms(2) st2(1) Some by simp
    have c: "\<forall>k<n. \<exists>i<length srcs. ?P k i"
      using w Some by simp
    show ?thesis
      by (rule exI [of _ ?st4]) (simp only: if_P [OF c] run)
  qed
qed

text \<open>
  C2. Every value the function returns is 0 (\<open>folios_copy_dma_parallel_returns_0\<close>), and
  the fallbacks for a failed allocation and for no channel return it. But the call does
  not always return: with one pair, one channel and a mapping error for the source, the
  pair is copied by \<open>folio_copy\<close>, nothing is in flight on channel 0, and
  \<open>wait_for_completion\<close> on its \<open>done\<close> never ends. The state shown is the one the call
  is blocked in.
\<close>

theorem dma_transfer_never_returns:
  "folios_copy_dma (dma_env_src_map_fails_from 1 0) 1 [small_folio 100] [small_folio 0] 1 =
     Inr (None,
          \<lparr>chan_works = [\<lparr>chan = 0, done_c = 0, active_transfers = 0\<rparr>], failed = 1,
           dma_trace = [Request_channel 0, Pr_err Src_mapping_error,
                        Folio_copy (small_folio 100) (small_folio 0), Issue_pending 0]\<rparr>)"
  by (simp add: folios_copy_dma_def dma_eval)



section \<open>The empty batch\<close>

text \<open>
  C9, as the code has it. Neither engine copies anything for an empty batch, but
  neither returns at once. The DMA engine returns 0 after one \<open>pr_err\<close>: no channel is
  requested, and the fallback copy has nothing to do. The CPU engine, with a worker
  limit of at least 1, still allocates a descriptor for each of its \<open>T\<close> workers: if all
  allocations succeed it queues every worker with an empty list, waits, releases the
  descriptors and returns 0; if one fails it releases what it got and returns
  \<open>-ENOMEM\<close>.
\<close>

theorem empty_batch:
  assumes "\<not> CONFIG_HIGHMEM env" and "0 < limit_mt_num" and "T = min limit_mt_num 64"
  shows "copy_page_lists_mt env limit_mt_num [] [] 0 =
     (if \<forall>c<T. kzalloc_ok env c
      then Inr (0, \<lparr>work_items = replicate T \<lparr>ret = 0, num_items = 0, item_list = []\<rparr>,
                    trace = map Kzalloc [0..<T] @ map Queue_work [0..<T] @ map Kfree [0..<T]\<rparr>)
      else Inr (- ENOMEM,
                \<lparr>work_items = replicate (length (takeWhile (kzalloc_ok env) [0..<T]))
                                 \<lparr>ret = 0, num_items = 0, item_list = []\<rparr>,
                 trace = map Kzalloc [0..<length (takeWhile (kzalloc_ok env) [0..<T])] @
                         map Kfree [0..<length (takeWhile (kzalloc_ok env) [0..<T])]\<rparr>))
   \<and> folios_copy_dma_parallel denv [] [] 0 tc =
     Inr (Some 0,
          \<lparr>chan_works = [], failed = 0,
           dma_trace = [Pr_err (if tc < 0 \<or> \<not> kmalloc_channels_ok denv
                                then No_memory_for_channels else No_dma_channels)]\<rparr>)"
  using empty_batch_mt [OF assms] empty_batch_dma [of denv tc] by (rule conjI)

theorem empty_batch_witness:
  "copy_page_lists_mt env_ok 2 [] [] 0 =
     Inr (0, \<lparr>work_items = replicate 2 \<lparr>ret = 0, num_items = 0, item_list = []\<rparr>,
              trace = [Kzalloc 0, Kzalloc 1, Queue_work 0, Queue_work 1, Kfree 0, Kfree 1]\<rparr>)
   \<and> folios_copy_dma_parallel (dma_env_ok 4) [] [] 0 4 =
     Inr (Some 0, \<lparr>chan_works = [], failed = 0, dma_trace = [Pr_err No_dma_channels]\<rparr>)"
proof -
  have h1: "\<not> CONFIG_HIGHMEM env_ok"
    by (simp add: env_ok_def)
  have h2: "(0::nat) < 2" and h3: "(2::nat) = min 2 64"
    by simp_all
  show ?thesis
    using empty_batch [OF h1 h2 h3, of "dma_env_ok 4" 4]
    by (simp add: env_ok_def dma_env_ok_def upt_conv_Cons)
qed

text \<open>
  The claim fails for the CPU engine: an empty batch is answered with \<open>-ENOMEM\<close> when the
  first allocation fails, and otherwise with 0 only after four allocations and four
  queued workers (worker limit 4).
\<close>

theorem empty_batch_not_a_noop:
  "copy_page_lists_mt (env_no_memory_at 0) 4 [] [] 0 =
     Inr (- ENOMEM, \<lparr>work_items = [], trace = []\<rparr>)
   \<and> copy_page_lists_mt env_ok 4 [] [] 0 =
     Inr (0, \<lparr>work_items = replicate 4 \<lparr>ret = 0, num_items = 0, item_list = []\<rparr>,
              trace = [Kzalloc 0, Kzalloc 1, Kzalloc 2, Kzalloc 3,
                       Queue_work 0, Queue_work 1, Queue_work 2, Queue_work 3,
                       Kfree 0, Kfree 1, Kfree 2, Kfree 3]\<rparr>)"
  using empty_batch_mt [of "env_no_memory_at 0" 4 4] empty_batch_mt [of env_ok 4 4]
  by (simp add: env_no_memory_at_def env_ok_def upt_conv_Cons)

end
